theory Spec2Isabelle
  imports Complex_Main
begin

section \<open>Constants of the actor-learner thread\<close>

text \<open>
  The constructor of \<open>ActorLearnerThread\<close> sets these attributes once and no method
  assigns them again. Python floats are modelled as reals, so \<open>1e-10\<close>, \<open>0.01\<close> and
  \<open>0.99\<close> are the exact rationals.
\<close>

definition t_max :: int where
  "t_max = 10"

definition skip_num :: nat where
  "skip_num = 4"

definition eps :: real where
  "eps = 1 / 10 ^ 10"

definition beta :: real where
  "beta = 1 / 100"

definition gamma :: real where
  "gamma = 99 / 100"

definition grad_clip :: real where
  "grad_clip = 40"

section \<open>Tensor operations used by the loss\<close>

text \<open>
  A rank-2 tensor is a list of rows. \<open>tf.mul\<close> and the subtraction act element by
  element; \<open>reduce_sum_1\<close> is \<open>tf.reduce_sum\<close> with \<open>reduction_indices=1\<close> and
  \<open>keep_dims=True\<close>, \<open>reduce_sum\<close> is the full reduction. The operations are used
  on tensors of equal shapes.

  \<open>tf.log\<close> is the real logarithm on positive elements; at 0 it gives \<open>-inf\<close> and
  below 0 it gives NaN, and every product and sum that such an element enters is
  infinite or NaN again. \<open>tf_log_finite\<close> says that every element handed to
  \<open>tf.log\<close> is positive; \<open>tf_log\<close> gives the logarithms then, and \<open>None\<close>
  otherwise: \<open>None\<close> stands for a result that is no finite number.
\<close>

type_synonym tensor = "real list list"

definition tf_mul :: "tensor \<Rightarrow> tensor \<Rightarrow> tensor" where
  "tf_mul x y = map2 (map2 (*)) x y"

definition tf_sub :: "tensor \<Rightarrow> tensor \<Rightarrow> tensor" where
  "tf_sub x y = map2 (map2 (-)) x y"

definition tf_add_scalar :: "tensor \<Rightarrow> real \<Rightarrow> tensor" where
  "tf_add_scalar x c = map (map (\<lambda>v. v + c)) x"

definition tf_mul_scalar :: "tensor \<Rightarrow> real \<Rightarrow> tensor" where
  "tf_mul_scalar x c = map (map (\<lambda>v. v * c)) x"

definition tf_square :: "tensor \<Rightarrow> tensor" where
  "tf_square x = map (map (\<lambda>v. v * v)) x"

definition tf_log_finite :: "tensor \<Rightarrow> bool" where
  "tf_log_finite x = list_all (list_all (\<lambda>v. 0 < v)) x"

definition tf_log :: "tensor \<Rightarrow> tensor option" where
  "tf_log x = (if tf_log_finite x then Some (map (map ln) x) else None)"

definition reduce_sum_1 :: "tensor \<Rightarrow> tensor" where
  "reduce_sum_1 x = map (\<lambda>row. [sum_list row]) x"

definition reduce_sum :: "tensor \<Rightarrow> real" where
  "reduce_sum x = sum_list (map sum_list x)"

section \<open>prepare_loss_operations\<close>

text \<open>
  \<open>pi_self\<close> is \<open>self.pi\<close>; \<open>pi_net\<close> and \<open>val\<close> are the two results of
  \<open>pi_and_value\<close> (the source's \<open>pi\<close> and \<open>value\<close>; \<open>pi\<close> is a constant of
  HOL). All three are outputs of the local network on \<open>state_input\<close>.
  The two tensors handed to \<open>tf.log\<close> are named on their own. The losses are
  \<open>None\<close> when a logarithm is not finite.
\<close>

definition log_pi_arg :: "tensor \<Rightarrow> tensor" where
  "log_pi_arg pi_self = tf_add_scalar pi_self eps"

definition pi_a_s :: "tensor \<Rightarrow> tensor \<Rightarrow> tensor" where
  "pi_a_s pi_net action_input = reduce_sum_1 (tf_mul pi_net action_input)"

definition prepare_loss_operations ::
  "tensor \<Rightarrow> tensor \<Rightarrow> tensor \<Rightarrow> tensor \<Rightarrow> tensor \<Rightarrow> (real \<times> real) option" where
  "prepare_loss_operations pi_self pi_net val action_input reward_input =
     (case tf_log (log_pi_arg pi_self) of
        None \<Rightarrow> None
      | Some log_pi \<Rightarrow>
          (let entropy = reduce_sum_1 (tf_mul pi_net log_pi)
           in case tf_log (pi_a_s pi_net action_input) of
                None \<Rightarrow> None
              | Some log_pi_a_s \<Rightarrow>
                  (let advantage = tf_sub reward_input val;
                       policy_loss = - reduce_sum (tf_mul log_pi_a_s advantage)
                                     + reduce_sum (tf_mul_scalar entropy beta);
                       value_loss = reduce_sum (tf_square advantage)
                   in Some (policy_loss, value_loss))))"

definition total_loss ::
  "tensor \<Rightarrow> tensor \<Rightarrow> tensor \<Rightarrow> tensor \<Rightarrow> tensor \<Rightarrow> real option" where
  "total_loss pi_self pi_net val action_input reward_input =
     (case prepare_loss_operations pi_self pi_net val action_input reward_input of
        None \<Rightarrow> None
      | Some (policy_loss, value_loss) \<Rightarrow> Some (policy_loss + value_loss * (1 / 2)))"

text \<open>\<open>np.zeros(n)\<close> with index \<open>a\<close> set to 1, for \<open>a < n\<close>.\<close>

definition one_hot :: "nat \<Rightarrow> nat \<Rightarrow> real list" where
  "one_hot n a = (replicate n 0)[a := 1]"

section \<open>prepare_apply_gradients\<close>

definition clip_by_value :: "real list \<Rightarrow> real \<Rightarrow> real \<Rightarrow> real list" where
  "clip_by_value g lo hi = map (\<lambda>v. min (max v lo) hi) g"

definition clipped_grads :: "real list list \<Rightarrow> real list list" where
  "clipped_grads local_grads = map (\<lambda>grad. clip_by_value grad (- grad_clip) grad_clip) local_grads"

section \<open>The worker, its collaborators and the calls it makes\<close>

text \<open>
  Exceptions of the Python code are values: a function that can raise returns
  \<open>error + 'a\<close>, with \<open>Inl\<close> the exception. A method of the worker that raises
  returns the exception together with the state at that moment.
\<close>

datatype error = IndexError | TypeError | AssertionError | ValueError

text \<open>
  One step record of the trajectory: the dictionary with the keys \<open>state\<close>,
  \<open>action\<close> and \<open>reward\<close> that \<open>play_game\<close> appends to \<open>history\<close>. An observation
  is the stack of frames along the last axis, modelled as the list of frames.
\<close>

record 'f snapshot =
  state :: "'f list"
  action :: nat
  reward :: real

text \<open>
  The calls the worker makes on the TensorFlow session and on the environment, in the
  order it makes them. \<open>available_actions\<close> only reads and is not logged, and a
  call that raises is not logged.
\<close>

datatype 'f call =
    Run_reset_local_grads_ops
  | Run_copy_operations
  | Env_act nat
  | Env_reset
  | Env_is_end_state
  | Run_pi "'f list"
  | Run_value "'f list"
  | Run_accum_local_grads_ops "'f list list" tensor tensor
  | Run_apply_grads "real list list"

text \<open>
  The collaborators whose code is outside the worker: the environment (state \<open>'e\<close>,
  frames \<open>'f\<close>), numpy's random generator (state \<open>'g\<close>), the network model as a
  function of its weights, TensorFlow's automatic differentiation and the optimizer
  of the shared network (state \<open>'o\<close>). \<open>tf_gradients X loss ws\<close> stands for the
  gradient tensors of \<open>loss\<close>, as a function of the weights, at \<open>ws\<close>;
  \<open>apply_gradients X opt pairs\<close> for the optimizer's new state and the new values of
  the variables in \<open>pairs\<close>.
\<close>

record ('e, 'f, 'g, 'o) collaborators =
  env_reset :: "'e \<Rightarrow> 'e"
  env_act :: "nat \<Rightarrow> 'e \<Rightarrow> (real \<times> 'f) \<times> 'e"
  env_is_end_state :: "'e \<Rightarrow> bool"
  env_available_actions :: "'e \<Rightarrow> nat list"
  random_choice :: "nat list \<Rightarrow> 'g \<Rightarrow> nat \<times> 'g"
  random_choice_p :: "nat list \<Rightarrow> real list \<Rightarrow> 'g \<Rightarrow> nat \<times> 'g"
  network_pi :: "real list list \<Rightarrow> 'f list \<Rightarrow> real list"
  network_value :: "real list list \<Rightarrow> 'f list \<Rightarrow> real"
  actor_outputs :: nat
  num_channels :: nat
  tf_gradients :: "(real list list \<Rightarrow> real option) \<Rightarrow> real list list \<Rightarrow> real list list"
  apply_gradients :: "'o \<Rightarrow> (real list \<times> real list) list \<Rightarrow> 'o \<times> real list list"

text \<open>
  The state one worker reads and writes: its own attributes, the variables of its
  local network and of its gradient accumulator, and the shared network (weights,
  optimizer, step counter). \<open>kill_received\<close> is the attribute that \<open>main.py\<close> sets on
  the thread object; it is absent (\<open>None\<close>) until then.
\<close>

record ('e, 'f, 'g, 'o) actor_learner_thread =
  t :: int
  t_start :: int
  stop :: bool
  kill_received :: "bool option"
  environment :: 'e
  random_state :: 'g
  local_network :: "real list list"
  local_grads :: "real list list"
  shared_weights :: "real list list"
  shared_optimizer :: 'o
  shared_counter :: int
  calls :: "'f call list"

definition log_call ::
  "'f call \<Rightarrow> ('e, 'f, 'g, 'o) actor_learner_thread \<Rightarrow> ('e, 'f, 'g, 'o) actor_learner_thread" where
  "log_call c w = w\<lparr>calls := calls w @ [c]\<rparr>"

section \<open>Gradient accumulator, synchronisation and apply\<close>

text \<open>
  Each of these runs a group of assignments built from a \<open>zip\<close>, which stops at the
  shorter list; the variables beyond it keep their values.
\<close>

definition reset_gradients ::
  "('e, 'f, 'g, 'o) actor_learner_thread \<Rightarrow> ('e, 'f, 'g, 'o) actor_learner_thread" where
  "reset_gradients w =
     log_call Run_reset_local_grads_ops
       (w\<lparr>local_grads :=
            map (\<lambda>(var, local_grad). replicate (length var) 0)
                (zip (local_network w) (local_grads w))
            @ drop (length (local_network w)) (local_grads w)\<rparr>)"

definition sync_network_parameters ::
  "('e, 'f, 'g, 'o) actor_learner_thread \<Rightarrow> ('e, 'f, 'g, 'o) actor_learner_thread" where
  "sync_network_parameters w =
     log_call Run_copy_operations
       (w\<lparr>local_network :=
            map (\<lambda>(origin, target). origin) (zip (shared_weights w) (local_network w))
            @ drop (length (shared_weights w)) (local_network w)\<rparr>)"

definition feed_loss ::
  "('e, 'f, 'g, 'o) collaborators \<Rightarrow> 'f list list \<Rightarrow> tensor \<Rightarrow> tensor \<Rightarrow> real list list \<Rightarrow>
   real option" where
  "feed_loss X states_batch action_batch reward_batch ws =
     total_loss (map (network_pi X ws) states_batch) (map (network_pi X ws) states_batch)
       (map (\<lambda>s. [network_value X ws s]) states_batch) action_batch reward_batch"

text \<open>
  \<open>session.run\<close> checks every fed value against the shape of its placeholder
  before it runs anything. The placeholders have the shapes \<open>[None, w, h, c]\<close>,
  \<open>[None, 4]\<close> and \<open>[None, 1]\<close>; an empty list is an array of shape \<open>(0,)\<close>, which
  none of them accepts, and the call raises ValueError. The rows that \<open>run\<close> builds
  have the shapes of the network.
\<close>

definition accumulate_gradients ::
  "('e, 'f, 'g, 'o) collaborators \<Rightarrow> 'f list list \<Rightarrow> tensor \<Rightarrow> tensor \<Rightarrow>
   ('e, 'f, 'g, 'o) actor_learner_thread \<Rightarrow> error + ('e, 'f, 'g, 'o) actor_learner_thread" where
  "accumulate_gradients X states_batch action_batch reward_batch w =
     (if states_batch = [] \<or> action_batch = [] \<or> reward_batch = [] then Inl ValueError
      else
        (let grads = tf_gradients X (feed_loss X states_batch action_batch reward_batch)
                       (local_network w)
         in Inr (log_call (Run_accum_local_grads_ops states_batch action_batch reward_batch)
              (w\<lparr>local_grads :=
                   map (\<lambda>(grad, var, local_grad). map2 (+) local_grad grad)
                       (zip grads (zip (local_network w) (local_grads w)))
                   @ drop (min (length grads) (length (local_network w))) (local_grads w)\<rparr>))))"

definition update_shared_gradients ::
  "('e, 'f, 'g, 'o) collaborators \<Rightarrow>
   ('e, 'f, 'g, 'o) actor_learner_thread \<Rightarrow> ('e, 'f, 'g, 'o) actor_learner_thread" where
  "update_shared_gradients X w =
     (let grads = clipped_grads (local_grads w);
          (opt, new_values) =
             apply_gradients X (shared_optimizer w) (zip grads (shared_weights w))
      in log_call (Run_apply_grads grads)
           (w\<lparr>shared_weights := new_values @ drop (length new_values) (shared_weights w),
              shared_optimizer := opt,
              shared_counter := shared_counter w + 1\<rparr>))"

section \<open>get_initial_state\<close>

text \<open>
  The inner \<open>for\<close> loop: \<open>n\<close> random actions, keeping the last screen.
  \<open>next_screen\<close> starts as \<open>None\<close>.
\<close>

fun random_acts ::
  "('e, 'f, 'g, 'o) collaborators \<Rightarrow> nat \<Rightarrow> nat list \<Rightarrow>
   'f option \<times> ('e, 'f, 'g, 'o) actor_learner_thread \<Rightarrow>
   'f option \<times> ('e, 'f, 'g, 'o) actor_learner_thread" where
  "random_acts X 0 available_actions (next_screen, w) = (next_screen, w)"
| "random_acts X (Suc n) available_actions (next_screen, w) =
     (let (a, g) = random_choice X available_actions (random_state w);
          ((r, screen), e) = env_act X a (environment w)
      in random_acts X n available_actions
           (Some screen, log_call (Env_act a) (w\<lparr>environment := e, random_state := g\<rparr>)))"

text \<open>
  The exit test of the warm-up loop is \<open>len(initial_state) is self.num_channels\<close>,
  the identity of two int objects. CPython keeps one object for each int from -5 to
  256 and makes a new object for any other result, so the length and the attribute
  are the same object exactly when they are equal and at most 256.
\<close>

definition py_is :: "nat \<Rightarrow> nat \<Rightarrow> bool" where
  "py_is m n = (m = n \<and> m \<le> 256)"

text \<open>
  The \<open>while True\<close> loop leaves only when that test holds, so it may run forever:
  not returning is the value \<open>None\<close>.
\<close>

partial_function (option) get_initial_state_loop ::
  "('e, 'f, 'g, 'o) collaborators \<Rightarrow> nat list \<Rightarrow> 'f option list \<Rightarrow>
   ('e, 'f, 'g, 'o) actor_learner_thread \<Rightarrow>
   ('f option list \<times> ('e, 'f, 'g, 'o) actor_learner_thread) option" where
  "get_initial_state_loop X available_actions initial_state w =
     (let (next_screen, w1) = random_acts X skip_num available_actions (None, w);
          initial_state1 = initial_state @ [next_screen]
      in if py_is (length initial_state1) (num_channels X) then Some (initial_state1, w1)
         else get_initial_state_loop X available_actions initial_state1 w1)"

definition get_initial_state ::
  "('e, 'f, 'g, 'o) collaborators \<Rightarrow> ('e, 'f, 'g, 'o) actor_learner_thread \<Rightarrow>
   ('f option list \<times> ('e, 'f, 'g, 'o) actor_learner_thread) option" where
  "get_initial_state X w =
     get_initial_state_loop X (env_available_actions X (environment w)) [] w"

section \<open>play_game\<close>

definition np_clip :: "real \<Rightarrow> real \<Rightarrow> real \<Rightarrow> real" where
  "np_clip v lo hi = min (max v lo) hi"

text \<open>
  The inner \<open>for\<close> loop of the rollout: \<open>n\<close> times the chosen action, each
  intermediate reward clipped and added to \<open>reward\<close>.
\<close>

fun act_repeat ::
  "('e, 'f, 'g, 'o) collaborators \<Rightarrow> nat \<Rightarrow> nat \<Rightarrow>
   real \<times> 'f option \<times> ('e, 'f, 'g, 'o) actor_learner_thread \<Rightarrow>
   real \<times> 'f option \<times> ('e, 'f, 'g, 'o) actor_learner_thread" where
  "act_repeat X 0 a (rew, next_screen, w) = (rew, next_screen, w)"
| "act_repeat X (Suc n) a (rew, next_screen, w) =
     (let ((intermediate_reward, screen), e) = env_act X a (environment w)
      in act_repeat X n a
           (rew + np_clip intermediate_reward (- 1) 1, Some screen,
            log_call (Env_act a) (w\<lparr>environment := e\<rparr>)))"

text \<open>
  \<open>np.stack\<close> of the warm-up screens; a missing screen is no array.
\<close>

fun np_stack :: "'f option list \<Rightarrow> error + 'f list" where
  "np_stack [] = Inr []"
| "np_stack (None # xs) = Inl TypeError"
| "np_stack (Some x # xs) = (case np_stack xs of Inl e \<Rightarrow> Inl e | Inr ys \<Rightarrow> Inr (x # ys))"

text \<open>
  The \<open>while\<close> loop of \<open>play_game\<close>. Its variables are \<open>history\<close>, \<open>next_state\<close>,
  \<open>next_screen\<close> and \<open>reward\<close>; \<open>reward\<close> is set to 0 before the loop, and the loop
  body adds to it (\<open>reward += 0.0\<close>, then the clipped rewards). The counter test is
  \<open>!=\<close>, so the loop is not bounded by its form.
\<close>

partial_function (option) play_game_loop ::
  "('e, 'f, 'g, 'o) collaborators \<Rightarrow> nat list \<Rightarrow> 'f snapshot list \<Rightarrow> 'f list \<Rightarrow>
   'f option \<Rightarrow> real \<Rightarrow> ('e, 'f, 'g, 'o) actor_learner_thread \<Rightarrow>
   (error \<times> ('e, 'f, 'g, 'o) actor_learner_thread +
    'f snapshot list \<times> 'f list \<times> ('e, 'f, 'g, 'o) actor_learner_thread) option" where
  "play_game_loop X available_actions history next_state next_screen rew w =
     (let w0 = log_call Env_is_end_state w
      in if env_is_end_state X (environment w0) = False \<and> t w0 - t_start w0 \<noteq> t_max then
           (let s = next_state;
                probabilities = network_pi X (local_network w0) s;
                w1 = log_call (Run_pi s) w0;
                (a, g) = random_choice_p X available_actions probabilities (random_state w1);
                (rew1, next_screen1, w2) =
                   act_repeat X skip_num a (rew + 0, next_screen, w1\<lparr>random_state := g\<rparr>)
            in case next_screen1 of
                 None \<Rightarrow> Some (Inl (TypeError, w2))
               | Some screen \<Rightarrow>
                   play_game_loop X available_actions
                     (history @ [\<lparr>state = s, action = a, reward = rew1\<rparr>])
                     (drop 1 s @ [screen]) next_screen1 rew1 (w2\<lparr>t := t w2 + 1\<rparr>))
         else Some (Inr (history, next_state, w0)))"

definition play_game ::
  "('e, 'f, 'g, 'o) collaborators \<Rightarrow> 'f option list \<Rightarrow>
   ('e, 'f, 'g, 'o) actor_learner_thread \<Rightarrow>
   (error \<times> ('e, 'f, 'g, 'o) actor_learner_thread +
    'f snapshot list \<times> 'f list option \<times> ('e, 'f, 'g, 'o) actor_learner_thread) option" where
  "play_game X initial_state w =
     (case np_stack initial_state of
        Inl e \<Rightarrow> Some (Inl (e, w))
      | Inr s \<Rightarrow>
          (case play_game_loop X (env_available_actions X (environment w)) [] s None 0 w of
             None \<Rightarrow> None
           | Some (Inl raised) \<Rightarrow> Some (Inl raised)
           | Some (Inr (history, next_state, w1)) \<Rightarrow>
               (let w2 = log_call Env_is_end_state w1
                in Some (Inr (history,
                              if env_is_end_state X (environment w2) then None
                              else Some next_state,
                              w2)))))"

section \<open>run\<close>

text \<open>
  \<open>range(hi, -1, -1)\<close>: the indices \<open>hi, hi - 1, ..., 0\<close>, none when \<open>hi < 0\<close>.
\<close>

definition range_down :: "int \<Rightarrow> int list" where
  "range_down hi = map int (rev [0..<nat (hi + 1)])"

text \<open>Python's list indexing: a negative index counts from the end.\<close>

definition history_get :: "'f snapshot list \<Rightarrow> int \<Rightarrow> error + 'f snapshot" where
  "history_get history i =
     (let n = int (length history); j = (if i < 0 then n + i else i)
      in if 0 \<le> j \<and> j < n then Inr (history ! nat j) else Inl IndexError)"

definition extract_history ::
  "('e, 'f, 'g, 'o) collaborators \<Rightarrow> 'f snapshot \<Rightarrow> error + 'f list \<times> real list \<times> real" where
  "extract_history X snap =
     (if action snap < actor_outputs X
      then Inr (state snap, one_hot (actor_outputs X) (action snap), reward snap)
      else Inl IndexError)"

text \<open>
  The \<open>for\<close> loop of \<open>run\<close> over the recorded steps, last step first: it carries
  \<open>r\<close> and the three batches.
\<close>

fun batches_loop ::
  "('e, 'f, 'g, 'o) collaborators \<Rightarrow> 'f snapshot list \<Rightarrow> int list \<Rightarrow>
   real \<times> 'f list list \<times> tensor \<times> tensor \<Rightarrow> error + real \<times> 'f list list \<times> tensor \<times> tensor" where
  "batches_loop X history [] (r, states_batch, action_batch, reward_batch) =
     Inr (r, states_batch, action_batch, reward_batch)"
| "batches_loop X history (i # rest) (r, states_batch, action_batch, reward_batch) =
     (case history_get history i of
        Inl e \<Rightarrow> Inl e
      | Inr snap \<Rightarrow>
          (case extract_history X snap of
             Inl e \<Rightarrow> Inl e
           | Inr (s, a, rew) \<Rightarrow>
               (let r1 = rew + gamma * r
                in batches_loop X history rest
                     (r1, states_batch @ [s], action_batch @ [a], reward_batch @ [[r1]]))))"

text \<open>The seed of the returns: 0 when \<open>last_state\<close> is \<open>None\<close>, else the value estimate.\<close>

definition bootstrap ::
  "('e, 'f, 'g, 'o) collaborators \<Rightarrow> 'f list option \<Rightarrow>
   ('e, 'f, 'g, 'o) actor_learner_thread \<Rightarrow> real \<times> ('e, 'f, 'g, 'o) actor_learner_thread" where
  "bootstrap X last_state w =
     (case last_state of
        None \<Rightarrow> (0, w)
      | Some s \<Rightarrow> (network_value X (local_network w) s, log_call (Run_value s) w))"

text \<open>The test of the outer \<open>while\<close> loop.\<close>

definition run_guard :: "('e, 'f, 'g, 'o) actor_learner_thread \<Rightarrow> bool" where
  "run_guard w = (shared_counter w < t_max \<and> stop w = False)"

text \<open>The body of the outer loop, statement by statement.\<close>

definition run_iteration ::
  "('e, 'f, 'g, 'o) collaborators \<Rightarrow> ('e, 'f, 'g, 'o) actor_learner_thread \<Rightarrow>
   (error \<times> ('e, 'f, 'g, 'o) actor_learner_thread + ('e, 'f, 'g, 'o) actor_learner_thread) option" where
  "run_iteration X w =
     (let w1 = reset_gradients w;
          w2 = sync_network_parameters w1;
          w3 = w2\<lparr>t_start := t w2\<rparr>
      in case get_initial_state X w3 of
           None \<Rightarrow> None
         | Some (initial_state, w4) \<Rightarrow>
             (let w5 = log_call Env_reset (w4\<lparr>environment := env_reset X (environment w4)\<rparr>)
              in case play_game X initial_state w5 of
                   None \<Rightarrow> None
                 | Some (Inl raised) \<Rightarrow> Some (Inl raised)
                 | Some (Inr (history, last_state, w6)) \<Rightarrow>
                     (let (r, w7) = bootstrap X last_state w6
                      in case batches_loop X history (range_down ((t w7 - 1) - t_start w7))
                                (r, [], [], []) of
                           Inl e \<Rightarrow> Some (Inl (e, w7))
                         | Inr (r1, states_batch, action_batch, reward_batch) \<Rightarrow>
                             (case accumulate_gradients X states_batch action_batch
                                     reward_batch w7 of
                                Inl e \<Rightarrow> Some (Inl (e, w7))
                              | Inr w8 \<Rightarrow> Some (Inr (update_shared_gradients X w8))))))"

partial_function (option) run ::
  "('e, 'f, 'g, 'o) collaborators \<Rightarrow> ('e, 'f, 'g, 'o) actor_learner_thread \<Rightarrow>
   (error \<times> ('e, 'f, 'g, 'o) actor_learner_thread + ('e, 'f, 'g, 'o) actor_learner_thread) option" where
  "run X w =
     (if run_guard w then
        (case run_iteration X w of
           None \<Rightarrow> None
         | Some (Inl raised) \<Rightarrow> Some (Inl raised)
         | Some (Inr w1) \<Rightarrow> run X w1)
      else Some (Inr w))"

section \<open>Construction and interrupt\<close>

text \<open>
  The constructor, as far as it sets the state: the counters, the stop flag and one
  zero gradient tensor per variable of the local network. \<open>thread_id\<close> only names
  scopes. The assertion on the number of variables (10) raises; the assertions on
  the placeholder shapes compare shapes that the network model declares and are
  not modelled.
\<close>

definition ActorLearnerThread_init ::
  "('e, 'f, 'g, 'o) collaborators \<Rightarrow> 'e \<Rightarrow> 'g \<Rightarrow> real list list \<times> 'o \<times> int \<Rightarrow>
   real list list \<Rightarrow> int \<Rightarrow> error + ('e, 'f, 'g, 'o) actor_learner_thread" where
  "ActorLearnerThread_init X env g shared local thread_id =
     (if length local \<noteq> 10 then Inl AssertionError
      else Inr \<lparr>t = 1, t_start = 1, stop = False, kill_received = None,
                environment = env, random_state = g,
                local_network = local,
                local_grads = map (\<lambda>var. replicate (length var) 0) local,
                shared_weights = fst shared,
                shared_optimizer = fst (snd shared),
                shared_counter = snd (snd shared),
                calls = []\<rparr>)"

definition signal_handler ::
  "('e, 'f, 'g, 'o) actor_learner_thread \<Rightarrow> ('e, 'f, 'g, 'o) actor_learner_thread" where
  "signal_handler w = w\<lparr>stop := True\<rparr>"

text \<open>
  The process of \<open>main.py\<close>, as far as an interrupt concerns it: the thread objects
  and the handler installed for SIGINT. A handler is process-wide, and
  \<open>signal.signal\<close> in the constructor replaces the one installed before, so the
  handler is the \<open>signal_handler\<close> of one thread, given by its index; \<open>None\<close> is
  Python's default handler, which raises KeyboardInterrupt in the main thread.
\<close>

record ('e, 'f, 'g, 'o) process =
  threads :: "('e, 'f, 'g, 'o) actor_learner_thread list"
  sigint_handler :: "nat option"

text \<open>Lines 116 to 121 of \<open>main.py\<close> for one thread that the constructor returned.\<close>

definition append_thread ::
  "('e, 'f, 'g, 'o) actor_learner_thread \<Rightarrow> ('e, 'f, 'g, 'o) process \<Rightarrow> ('e, 'f, 'g, 'o) process" where
  "append_thread w P = \<lparr>threads = threads P @ [w], sigint_handler = Some (length (threads P))\<rparr>"

text \<open>The \<open>except KeyboardInterrupt\<close> branch of the join loop.\<close>

definition keyboard_interrupt :: "('e, 'f, 'g, 'o) process \<Rightarrow> ('e, 'f, 'g, 'o) process" where
  "keyboard_interrupt P = P\<lparr>threads := map (\<lambda>thread. thread\<lparr>kill_received := Some True\<rparr>) (threads P)\<rparr>"

text \<open>What a SIGINT does to the process.\<close>

definition sigint :: "('e, 'f, 'g, 'o) process \<Rightarrow> ('e, 'f, 'g, 'o) process" where
  "sigint P =
     (case sigint_handler P of
        None \<Rightarrow> keyboard_interrupt P
      | Some i \<Rightarrow> P\<lparr>threads := (threads P)[i := signal_handler (threads P ! i)]\<rparr>)"

section \<open>The loss as the specification writes it\<close>

text \<open>
  \<open>entropy_eps\<close> is the entropy of a distribution with the constant \<open>eps\<close> inside the
  logarithm. \<open>spec_entropy\<close> and \<open>spec_total_loss\<close> follow the words of the
  specification: the standard entropy, and the policy loss with the term
  \<open>+ beta * entropy\<close>. A batch is a list \<open>S\<close> of samples with the selectors \<open>P\<close>
  (policy output), \<open>V\<close> (value output), \<open>A\<close> (action taken) and \<open>R\<close> (return).
\<close>

definition entropy_eps :: "real list \<Rightarrow> real" where
  "entropy_eps p = - (\<Sum>q\<leftarrow>p. q * ln (q + eps))"

definition spec_entropy :: "real list \<Rightarrow> real" where
  "spec_entropy p = - (\<Sum>q\<leftarrow>p. q * ln q)"

definition spec_total_loss ::
  "('a \<Rightarrow> real list) \<Rightarrow> ('a \<Rightarrow> real) \<Rightarrow> ('a \<Rightarrow> nat) \<Rightarrow> ('a \<Rightarrow> real) \<Rightarrow> 'a list \<Rightarrow> real" where
  "spec_total_loss P V A R S =
     (- (\<Sum>s\<leftarrow>S. ln (P s ! A s) * (R s - V s)) + beta * (\<Sum>s\<leftarrow>S. spec_entropy (P s)))
     + (1 / 2) * (\<Sum>s\<leftarrow>S. (R s - V s)\<^sup>2)"

section \<open>Predicates on states and calls\<close>

text \<open>
  \<open>keeps_variables w w1\<close>: the step from \<open>w\<close> to \<open>w1\<close> leaves the stop flag, the
  start counter and all TensorFlow variables as they are. \<open>is_act\<close> holds of the
  calls of \<open>environment.act\<close>, \<open>is_rollout_call\<close> of the calls that the rollout loop
  makes.
\<close>

definition keeps_variables ::
  "('e, 'f, 'g, 'o) actor_learner_thread \<Rightarrow> ('e, 'f, 'g, 'o) actor_learner_thread \<Rightarrow> bool" where
  "keeps_variables w w1 =
     (t_start w1 = t_start w \<and> stop w1 = stop w \<and> local_network w1 = local_network w \<and>
      local_grads w1 = local_grads w \<and> shared_weights w1 = shared_weights w \<and>
      shared_optimizer w1 = shared_optimizer w \<and> shared_counter w1 = shared_counter w)"

fun is_act :: "'f call \<Rightarrow> bool" where
  "is_act (Env_act a) = True"
| "is_act c = False"

fun is_rollout_call :: "'f call \<Rightarrow> bool" where
  "is_rollout_call (Env_act a) = True"
| "is_rollout_call Env_is_end_state = True"
| "is_rollout_call (Run_pi s) = True"
| "is_rollout_call c = False"

section \<open>Concrete inputs\<close>

text \<open>
  An environment that counts the actions taken: every action gives the reward 1 and
  the count as the next screen, the episode is over after \<open>k\<close> actions, and a reset
  sets the count to 0. The random choices always give action 0, the policy is
  uniform over four actions, the value estimate is 5, the gradient is zero and the
  optimizer leaves the variables as they are.
\<close>

definition counting_env :: "nat \<Rightarrow> (nat, nat, unit, unit) collaborators" where
  "counting_env k =
     \<lparr>env_reset = (\<lambda>e. 0),
      env_act = (\<lambda>a e. ((1, Suc e), Suc e)),
      env_is_end_state = (\<lambda>e. k \<le> e),
      env_available_actions = (\<lambda>e. [0, 1, 2, 3]),
      random_choice = (\<lambda>acts g. (0, g)),
      random_choice_p = (\<lambda>acts p g. (0, g)),
      network_pi = (\<lambda>ws s. [1 / 4, 1 / 4, 1 / 4, 1 / 4]),
      network_value = (\<lambda>ws s. 5),
      actor_outputs = 4,
      num_channels = 1,
      tf_gradients = (\<lambda>loss ws. map (\<lambda>v. replicate (length v) 0) ws),
      apply_gradients = (\<lambda>opt pairs. (opt, map snd pairs))\<rparr>"

text \<open>
  The state of a thread as the constructor leaves it, over a network of ten
  one-element tensors, when the shared counter is at \<open>step\<close>.
\<close>

definition fresh_thread :: "int \<Rightarrow> (nat, nat, unit, unit) actor_learner_thread" where
  "fresh_thread step =
     \<lparr>t = 1, t_start = 1, stop = False, kill_received = None, environment = 0,
      random_state = (), local_network = replicate 10 [0], local_grads = replicate 10 [0],
      shared_weights = replicate 10 [0], shared_optimizer = (), shared_counter = step,
      calls = []\<rparr>"

text \<open>The default of the flag \<open>global_t_max\<close> of \<open>main.py\<close>, which it passes to the constructor.\<close>

definition global_t_max :: int where
  "global_t_max = 1000000000"

text \<open>The process after \<open>main.py\<close> has created two threads.\<close>

definition two_threads :: "(nat, nat, unit, unit) process" where
  "two_threads =
     append_thread (fresh_thread 0)
       (append_thread (fresh_thread 0) \<lparr>threads = [], sigint_handler = None\<rparr>)"

section \<open>Returns as the specification writes them\<close>


section \<open>More predicates on calls\<close>

fun is_value_call :: "'f call \<Rightarrow> bool" where
  "is_value_call (Run_value s) = True"
| "is_value_call c = False"

fun is_apply_call :: "'f call \<Rightarrow> bool" where
  "is_apply_call (Run_apply_grads G) = True"
| "is_apply_call c = False"

text \<open>The calls logged by an iteration that returned; none otherwise.\<close>

definition calls_of ::
  "(error \<times> ('e, 'f, 'g, 'o) actor_learner_thread + ('e, 'f, 'g, 'o) actor_learner_thread) option \<Rightarrow>
   'f call list" where
  "calls_of res = (case res of Some (Inr w) \<Rightarrow> calls w | _ \<Rightarrow> [])"

text \<open>
  The exception of an iteration that raised, with the shared step counter and the
  calls logged up to then.
\<close>

definition raised_of ::
  "(error \<times> ('e, 'f, 'g, 'o) actor_learner_thread + ('e, 'f, 'g, 'o) actor_learner_thread) option \<Rightarrow>
   (error \<times> int \<times> 'f call list) option" where
  "raised_of res =
     (case res of Some (Inl (e, w)) \<Rightarrow> Some (e, shared_counter w, calls w) | _ \<Rightarrow> None)"


section \<open>Auxiliary facts\<close>

subsection \<open>The loss\<close>

lemma one_hot_dot: "a < length p \<Longrightarrow> sum_list (map2 (*) p (one_hot (length p) a)) = p ! a"
proof (induction p arbitrary: a)
  case Nil then show ?case by simp
next
  case (Cons x xs)
  have z: "sum_list (map2 (*) ys (replicate n (0::real))) = 0" for ys :: "real list" and n
  proof (induction ys arbitrary: n)
    case Nil then show ?case by simp
  next
    case (Cons y ys)
    then show ?case by (cases n) simp_all
  qed
  show ?case
  proof (cases a)
    case 0
    then show ?thesis using z[of xs "length xs"] by (simp add: one_hot_def)
  next
    case (Suc b)
    then show ?thesis using Cons.IH[of b] Cons.prems by (simp add: one_hot_def)
  qed
qed

lemma row_entropy: "sum_list (map2 (*) p (map ln (map (\<lambda>v. v + eps) p))) = - entropy_eps p"
  unfolding entropy_eps_def by (induction p) simp_all

lemma policy_term:
  assumes "\<forall>s\<in>set S. A s < n \<and> length (P s) = n"
  shows "reduce_sum (tf_mul (map (map ln) (pi_a_s (map P S) (map (\<lambda>s. one_hot n (A s)) S)))
            (tf_sub (map (\<lambda>s. [R s]) S) (map (\<lambda>s. [V s]) S)))
         = (\<Sum>s\<leftarrow>S. ln (P s ! A s) * (R s - V s))"
  using assms
proof (induction S)
  case Nil
  then show ?case by (simp add: reduce_sum_def tf_mul_def pi_a_s_def tf_sub_def reduce_sum_1_def)
next
  case (Cons x S)
  from Cons.prems have pa: "A x < length (P x)" "length (P x) = n" by auto
  have ih: "reduce_sum (tf_mul (map (map ln) (pi_a_s (map P S) (map (\<lambda>s. one_hot n (A s)) S)))
            (tf_sub (map (\<lambda>s. [R s]) S) (map (\<lambda>s. [V s]) S)))
         = (\<Sum>s\<leftarrow>S. ln (P s ! A s) * (R s - V s))"
    by (rule Cons.IH) (use Cons.prems in auto)
  show ?case
    using ih one_hot_dot[OF pa(1)] pa(2)
    by (simp add: reduce_sum_def tf_mul_def pi_a_s_def tf_sub_def reduce_sum_1_def)
qed

lemma entropy_term:
  "reduce_sum (tf_mul_scalar (reduce_sum_1 (tf_mul (map P S) (map (map ln) (log_pi_arg (map P S))))) beta)
     = - beta * (\<Sum>s\<leftarrow>S. entropy_eps (P s))"
proof (induction S)
  case Nil
  then show ?case by (simp add: reduce_sum_def tf_mul_scalar_def reduce_sum_1_def tf_mul_def log_pi_arg_def tf_add_scalar_def)
next
  case (Cons p S)
  then show ?case using row_entropy[of "P p"]
    by (simp add: reduce_sum_def tf_mul_scalar_def reduce_sum_1_def tf_mul_def log_pi_arg_def tf_add_scalar_def algebra_simps)
qed

lemma value_term:
  "reduce_sum (tf_square (tf_sub (map (\<lambda>s. [R s]) S) (map (\<lambda>s. [V s]) S)))
     = (\<Sum>s\<leftarrow>S. (R s - V s)\<^sup>2)"
  by (induction S) (auto simp: reduce_sum_def tf_square_def tf_sub_def power2_eq_square)



lemma eps_pos: "0 < eps"
  by (simp add: eps_def)

lemma log_pi_finite:
  assumes "\<forall>s\<in>set S. \<forall>q\<in>set (P s). 0 \<le> q"
  shows "tf_log_finite (log_pi_arg (map P S))"
proof -
  have "0 < q + eps" if "0 \<le> q" for q :: real
    using that eps_pos by simp
  then show ?thesis
    using assms by (simp add: tf_log_finite_def log_pi_arg_def tf_add_scalar_def list_all_iff)
qed

lemma pi_a_s_rows:
  assumes "\<forall>s\<in>set S. A s < n \<and> length (P s) = n"
  shows "pi_a_s (map P S) (map (\<lambda>s. one_hot n (A s)) S) = map (\<lambda>s. [P s ! A s]) S"
  using assms
proof (induction S)
  case Nil
  then show ?case by (simp add: pi_a_s_def reduce_sum_1_def tf_mul_def)
next
  case (Cons x S)
  from Cons.prems have pa: "A x < length (P x)" "length (P x) = n" by auto
  have ih: "pi_a_s (map P S) (map (\<lambda>s. one_hot n (A s)) S) = map (\<lambda>s. [P s ! A s]) S"
    by (rule Cons.IH) (use Cons.prems in auto)
  show ?case
    using ih one_hot_dot[OF pa(1)] pa(2)
    by (simp add: pi_a_s_def reduce_sum_1_def tf_mul_def)
qed

lemma pi_a_s_finite:
  assumes "\<forall>s\<in>set S. A s < n \<and> length (P s) = n \<and> 0 < P s ! A s"
  shows "tf_log_finite (pi_a_s (map P S) (map (\<lambda>s. one_hot n (A s)) S))"
proof -
  have "\<forall>s\<in>set S. A s < n \<and> length (P s) = n" using assms by blast
  from pi_a_s_rows[OF this] show ?thesis
    using assms by (simp add: tf_log_finite_def list_all_iff)
qed

lemma total:
  assumes "\<forall>s\<in>set S. A s < n \<and> length (P s) = n \<and> 0 < P s ! A s \<and> (\<forall>q\<in>set (P s). 0 \<le> q)"
  shows "total_loss (map P S) (map P S) (map (\<lambda>s. [V s]) S) (map (\<lambda>s. one_hot n (A s)) S) (map (\<lambda>s. [R s]) S) =
     Some ((- (\<Sum>s\<leftarrow>S. ln (P s ! A s) * (R s - V s)) - beta * (\<Sum>s\<leftarrow>S. entropy_eps (P s)))
           + (1 / 2) * (\<Sum>s\<leftarrow>S. (R s - V s)\<^sup>2))"
proof -
  have a: "\<forall>s\<in>set S. A s < n \<and> length (P s) = n" using assms by blast
  have b: "tf_log_finite (log_pi_arg (map P S))"
    by (rule log_pi_finite) (use assms in blast)
  have c: "tf_log_finite (pi_a_s (map P S) (map (\<lambda>s. one_hot n (A s)) S))"
    by (rule pi_a_s_finite) (use assms in blast)
  show ?thesis
    unfolding total_loss_def prepare_loss_operations_def Let_def tf_log_def
    using policy_term[OF a, of R V] entropy_term[of P S] value_term[of R S V] b c
    by simp
qed

subsection \<open>The loops of the rollout\<close>

lemma keeps_variables_refl: "keeps_variables w w"
  by (simp add: keeps_variables_def)

lemma keeps_variables_trans:
  "keeps_variables w w1 \<Longrightarrow> keeps_variables w1 w2 \<Longrightarrow> keeps_variables w w2"
  by (simp add: keeps_variables_def)

lemma act_repeat_facts:
  "act_repeat X n a (rew, scr, w) = (rew1, scr1, w1) \<Longrightarrow>
     keeps_variables w w1 \<and> t w1 = t w \<and> calls w1 = calls w @ replicate n (Env_act a) \<and>
     (scr1 = None \<longrightarrow> n = 0 \<and> scr = None)"
proof (induction n arbitrary: rew scr w)
  case 0
  then show ?case by (simp add: keeps_variables_def)
next
  case (Suc n)
  obtain ir screen e where act: "env_act X a (environment w) = ((ir, screen), e)"
    by (metis surj_pair)
  let ?w = "log_call (Env_act a) (w\<lparr>environment := e\<rparr>)"
  from Suc.prems act
  have "act_repeat X n a (rew + np_clip ir (- 1) 1, Some screen, ?w) = (rew1, scr1, w1)"
    by simp
  from Suc.IH[OF this]
  show ?case
    by (simp add: keeps_variables_def log_call_def replicate_app_Cons_same)
qed

lemma random_acts_facts:
  "random_acts X n av (scr, w) = (scr1, w1) \<Longrightarrow>
     keeps_variables w w1 \<and> t w1 = t w \<and>
     (\<exists>acts. calls w1 = calls w @ acts \<and> length acts = n \<and> list_all is_act acts) \<and>
     (scr1 = None \<longrightarrow> n = 0 \<and> scr = None)"
proof (induction n arbitrary: scr w)
  case 0
  then show ?case by (simp add: keeps_variables_def)
next
  case (Suc n)
  obtain a g where ch: "random_choice X av (random_state w) = (a, g)"
    by (metis surj_pair)
  obtain r screen e where act: "env_act X a (environment w) = ((r, screen), e)"
    by (metis surj_pair)
  let ?w = "log_call (Env_act a) (w\<lparr>environment := e, random_state := g\<rparr>)"
  from Suc.prems ch act
  have "random_acts X n av (Some screen, ?w) = (scr1, w1)"
    by simp
  from Suc.IH[OF this]
  obtain acts where k: "keeps_variables ?w w1" "t w1 = t ?w" "scr1 \<noteq> None"
    and c: "calls w1 = calls ?w @ acts" "length acts = n" "list_all is_act acts"
    by auto
  have "calls w1 = calls w @ (Env_act a # acts)"
    using c by (simp add: log_call_def)
  moreover have "length (Env_act a # acts) = Suc n" "list_all is_act (Env_act a # acts)"
    using c by simp_all
  ultimately have "\<exists>acts. calls w1 = calls w @ acts \<and> length acts = Suc n \<and> list_all is_act acts"
    by blast
  then show ?case using k by (simp add: keeps_variables_def log_call_def)
qed

lemma skip_num_pos: "0 < skip_num"
  by (simp add: skip_num_def)

lemma get_initial_state_loop_facts:
  "length init < num_channels X \<Longrightarrow> num_channels X \<le> 256 \<Longrightarrow>
   \<exists>init1 w1 acts. get_initial_state_loop X av init w = Some (init1, w1) \<and>
     length init1 = num_channels X \<and> keeps_variables w w1 \<and> t w1 = t w \<and>
     calls w1 = calls w @ acts \<and> length acts = (num_channels X - length init) * skip_num \<and>
     list_all is_act acts \<and> (\<forall>x\<in>set init1. x \<in> set init \<or> x \<noteq> None)"
proof (induction "num_channels X - length init" arbitrary: init w)
  case 0
  then show ?case by simp
next
  case (Suc k)
  obtain scr w0 where ra: "random_acts X skip_num av (None, w) = (scr, w0)"
    by (metis surj_pair)
  from random_acts_facts[OF ra] skip_num_pos
  obtain acts0 where k0: "keeps_variables w w0" "t w0 = t w" "scr \<noteq> None"
    and c0: "calls w0 = calls w @ acts0" "length acts0 = skip_num" "list_all is_act acts0"
    by auto
  show ?case
  proof (cases "length (init @ [scr]) = num_channels X")
    case True
    then have "get_initial_state_loop X av init w = Some (init @ [scr], w0)"
      using Suc.prems(2) by (subst get_initial_state_loop.simps) (simp add: ra py_is_def)
    moreover have "num_channels X - length init = 1"
      using True by simp
    then have "(num_channels X - length init) * skip_num = skip_num"
      by simp
    ultimately show ?thesis using True k0 c0 by auto
  next
    case False
    then have unf: "get_initial_state_loop X av init w = get_initial_state_loop X av (init @ [scr]) w0"
      by (subst get_initial_state_loop.simps) (simp add: ra py_is_def)
    have "k = num_channels X - length (init @ [scr])" "length (init @ [scr]) < num_channels X"
      using Suc.hyps(2) Suc.prems False by simp_all
    from Suc.hyps(1)[OF this Suc.prems(2), of w0]
    obtain init1 w1 acts where r: "get_initial_state_loop X av (init @ [scr]) w0 = Some (init1, w1)"
      "length init1 = num_channels X" "keeps_variables w0 w1" "t w1 = t w0"
      "calls w1 = calls w0 @ acts" "length acts = (num_channels X - length (init @ [scr])) * skip_num"
      "list_all is_act acts" "\<forall>x\<in>set init1. x \<in> set (init @ [scr]) \<or> x \<noteq> None"
      by blast
    have f1: "calls w1 = calls w @ (acts0 @ acts)" using r c0 by simp
    have "num_channels X - length init = Suc (num_channels X - length (init @ [scr]))"
      using Suc.prems by simp
    then have f2: "length (acts0 @ acts) = (num_channels X - length init) * skip_num"
      using r(6) c0(2) by simp
    have f3: "list_all is_act (acts0 @ acts)" using r c0 by simp
    have f4: "\<forall>x\<in>set init1. x \<in> set init \<or> x \<noteq> None" using r(8) k0(3) by auto
    have f5: "keeps_variables w w1" using k0 r keeps_variables_trans by blast
    have f6: "t w1 = t w" using k0 r by simp
    show ?thesis
      by (rule exI[of _ init1], rule exI[of _ w1], rule exI[of _ "acts0 @ acts"])
         (use unf r(1,2) f1 f2 f3 f4 f5 f6 in simp)
  qed
qed

lemma np_stack_all_Some:
  "\<forall>x\<in>set xs. x \<noteq> None \<Longrightarrow> \<exists>s. np_stack xs = Inr s \<and> length s = length xs"
proof (induction xs)
  case Nil
  then show ?case by simp
next
  case (Cons x xs)
  then obtain y where "x = Some y" by auto
  with Cons show ?case by auto
qed

lemma get_initial_state_facts:
  assumes "0 < num_channels X" "num_channels X \<le> 256"
  shows "\<exists>init w1 acts s. get_initial_state X w = Some (init, w1) \<and> np_stack init = Inr s \<and>
     length s = num_channels X \<and> keeps_variables w w1 \<and> t w1 = t w \<and>
     calls w1 = calls w @ acts \<and> length acts = num_channels X * skip_num \<and> list_all is_act acts"
proof -
  from get_initial_state_loop_facts[of "[]" X "env_available_actions X (environment w)" w] assms
  obtain init w1 acts where r: "get_initial_state X w = Some (init, w1)"
      "length init = num_channels X" "keeps_variables w w1" "t w1 = t w"
      "calls w1 = calls w @ acts" "length acts = num_channels X * skip_num"
      "list_all is_act acts" "\<forall>x\<in>set init. x \<noteq> None"
    unfolding get_initial_state_def by auto
  from np_stack_all_Some[OF r(8)] r show ?thesis by metis
qed

lemma play_game_loop_facts:
  assumes "t_start w \<le> t w" "t w - t_start w \<le> t_max"
  shows "\<exists>h1 ns1 w1 cs. play_game_loop X av h ns scr rew w = Some (Inr (h1, ns1, w1)) \<and>
      keeps_variables w w1 \<and> t w \<le> t w1 \<and> t w1 - t_start w1 \<le> t_max \<and>
      int (length h1) = int (length h) + (t w1 - t w) \<and> take (length h) h1 = h \<and>
      (t w1 - t_start w1 \<noteq> t_max \<longrightarrow> env_is_end_state X (environment w1)) \<and>
      (t w1 = t w \<longrightarrow> ns1 = ns) \<and>
      (t w1 \<noteq> t w \<longrightarrow> butlast ns1 = drop 1 (state (last h1))) \<and>
      calls w1 = calls w @ Env_is_end_state # cs \<and> list_all is_rollout_call cs"
  using assms
proof (induction "nat (t_max - (t w - t_start w))" arbitrary: h ns scr rew w rule: less_induct)
  case less
  let ?w0 = "log_call Env_is_end_state w"
  show ?case
  proof (cases "env_is_end_state X (environment w) \<or> t w - t_start w = t_max")
    case True
    then have "play_game_loop X av h ns scr rew w = Some (Inr (h, ns, ?w0))"
      by (subst play_game_loop.simps) (auto simp: log_call_def)
    moreover have "keeps_variables w ?w0" "t ?w0 = t w" "calls ?w0 = calls w @ Env_is_end_state # []"
      "environment ?w0 = environment w" "t_start ?w0 = t_start w"
      by (simp_all add: keeps_variables_def log_call_def)
    ultimately show ?thesis using True less.prems
      by (intro exI[of _ h] exI[of _ ns] exI[of _ ?w0] exI[of _ "[]"]) auto
  next
    case False
    define w1 where "w1 = log_call (Run_pi ns) ?w0"
    obtain a g where ch: "random_choice_p X av (network_pi X (local_network ?w0) ns) (random_state w1) = (a, g)"
      by (metis surj_pair)
    obtain rew1 scr1 w2 where ar: "act_repeat X skip_num a (rew + 0, scr, w1\<lparr>random_state := g\<rparr>) = (rew1, scr1, w2)"
      by (metis surj_pair)
    from act_repeat_facts[OF ar] skip_num_pos
    obtain screen where s1: "scr1 = Some screen"
      and k2: "keeps_variables (w1\<lparr>random_state := g\<rparr>) w2" "t w2 = t (w1\<lparr>random_state := g\<rparr>)"
      "calls w2 = calls (w1\<lparr>random_state := g\<rparr>) @ replicate skip_num (Env_act a)"
      by auto
    let ?w3 = "w2\<lparr>t := t w2 + 1\<rparr>"
    let ?h = "h @ [\<lparr>state = ns, action = a, reward = rew1\<rparr>]"
    have unf: "play_game_loop X av h ns scr rew w = play_game_loop X av ?h (drop 1 ns @ [screen]) scr1 rew1 ?w3"
      using False ch ar s1
      by (subst play_game_loop.simps) (simp add: log_call_def w1_def Let_def)
    have t3: "t ?w3 = t w + 1" "t_start ?w3 = t_start w"
      using k2 by (simp_all add: w1_def log_call_def keeps_variables_def)
    have m: "nat (t_max - (t ?w3 - t_start ?w3)) < nat (t_max - (t w - t_start w))"
      "t_start ?w3 \<le> t ?w3" "t ?w3 - t_start ?w3 \<le> t_max"
      using False less.prems t3 by auto
    from less.hyps[OF m, of ?h "drop 1 ns @ [screen]" scr1 rew1]
    obtain h1 ns1 w4 cs where r: "play_game_loop X av ?h (drop 1 ns @ [screen]) scr1 rew1 ?w3 = Some (Inr (h1, ns1, w4))"
      "keeps_variables ?w3 w4" "t ?w3 \<le> t w4" "t w4 - t_start w4 \<le> t_max"
      "int (length h1) = int (length ?h) + (t w4 - t ?w3)"
      "t w4 - t_start w4 \<noteq> t_max \<longrightarrow> env_is_end_state X (environment w4)"
      "t w4 = t ?w3 \<longrightarrow> ns1 = drop 1 ns @ [screen]"
      "t w4 \<noteq> t ?w3 \<longrightarrow> butlast ns1 = drop 1 (state (last h1))"
      "calls w4 = calls ?w3 @ Env_is_end_state # cs" "list_all is_rollout_call cs"
      "take (length ?h) h1 = ?h"
      by blast
    let ?cs = "Run_pi ns # replicate skip_num (Env_act a) @ Env_is_end_state # cs"
    have f1: "keeps_variables w w4"
      using r(2) k2(1) by (simp add: keeps_variables_def w1_def log_call_def)
    have f2: "t w \<le> t w4" "t w4 \<noteq> t w" using r(3) t3 by simp_all
    have f3: "int (length h1) = int (length h) + (t w4 - t w)" using r(5) t3 by simp
    have f4: "calls w4 = calls w @ Env_is_end_state # ?cs"
      using r(9) k2(3) by (simp add: w1_def log_call_def)
    have f5: "list_all is_rollout_call ?cs"
      using r(10) by (auto simp: list_all_iff)
    have f6: "butlast ns1 = drop 1 (state (last h1))"
    proof (cases "t w4 = t ?w3")
      case True
      then have "length h1 = length ?h" using r(5) by simp
      with r(11) have "h1 = ?h" by simp
      moreover have "ns1 = drop 1 ns @ [screen]" using True r(7) by simp
      ultimately show ?thesis by simp
    next
      case False
      then show ?thesis using r(8) by simp
    qed
    have "take (length h) (take (length ?h) h1) = take (length h) ?h"
      using r(11) by simp
    then have f7: "take (length h) h1 = h" by (simp add: min_def)
    show ?thesis
      by (rule exI[of _ h1], rule exI[of _ ns1], rule exI[of _ w4], rule exI[of _ ?cs])
         (use unf r(1,4,6) f1 f2 f3 f4 f5 f6 f7 in simp)
  qed
qed

lemma skip4: "skip_num = Suc (Suc (Suc (Suc 0)))" by (simp add: skip_num_def)

lemma fresh_thread_constructed:
  "ActorLearnerThread_init (counting_env k) 0 () (replicate 10 [0], (), step) (replicate 10 [0]) global_t_max
     = Inr (fresh_thread step)"
  by (simp add: ActorLearnerThread_init_def fresh_thread_def)

subsection \<open>play_game and the returns\<close>

lemma play_game_facts:
  assumes "t w = t_start w" "np_stack init = Inr s"
  shows "\<exists>h ls w1 cs. play_game X init w = Some (Inr (h, ls, w1)) \<and> keeps_variables w w1 \<and>
     t w1 - t_start w1 = int (length h) \<and> length h \<le> 10 \<and>
     (length h < 10 \<longrightarrow> env_is_end_state X (environment w1)) \<and>
     (env_is_end_state X (environment w1) \<longrightarrow> ls = None) \<and>
     (\<not> env_is_end_state X (environment w1) \<longrightarrow>
        (\<exists>ns. ls = Some ns \<and> (h = [] \<longrightarrow> ns = s) \<and>
              (h \<noteq> [] \<longrightarrow> butlast ns = drop 1 (state (last h))))) \<and>
     calls w1 = calls w @ Env_is_end_state # cs @ [Env_is_end_state] \<and> list_all is_rollout_call cs"
proof -
  have "t_start w \<le> t w" "t w - t_start w \<le> t_max" using assms(1) by (simp_all add: t_max_def)
  from play_game_loop_facts[OF this, of X "env_available_actions X (environment w)" "[]" s None 0]
  obtain h ns w1 cs where r:
      "play_game_loop X (env_available_actions X (environment w)) [] s None 0 w = Some (Inr (h, ns, w1))"
      "keeps_variables w w1" "t w \<le> t w1" "t w1 - t_start w1 \<le> t_max"
      "int (length h) = int (length ([]::'b snapshot list)) + (t w1 - t w)"
      "t w1 - t_start w1 \<noteq> t_max \<longrightarrow> env_is_end_state X (environment w1)"
      "t w1 = t w \<longrightarrow> ns = s"
      "t w1 \<noteq> t w \<longrightarrow> butlast ns = drop 1 (state (last h))"
      "calls w1 = calls w @ Env_is_end_state # cs" "list_all is_rollout_call cs"
    by blast
  let ?w2 = "log_call Env_is_end_state w1"
  let ?ls = "if env_is_end_state X (environment ?w2) then None else Some ns"
  have pg: "play_game X init w = Some (Inr (h, ?ls, ?w2))"
    using assms(2) r(1) by (simp add: play_game_def Let_def)
  have ts: "t_start w1 = t_start w" using r(2) by (simp add: keeps_variables_def)
  have f1: "keeps_variables w ?w2" using r(2) by (simp add: keeps_variables_def log_call_def)
  have f2: "t ?w2 - t_start ?w2 = int (length h)"
    using r(5) ts assms(1) by (simp add: log_call_def)
  have f3: "length h \<le> 10" using f2 r(4) by (simp add: log_call_def t_max_def)
  have f4: "length h < 10 \<longrightarrow> env_is_end_state X (environment ?w2)"
    using f2 r(6) by (auto simp: log_call_def t_max_def)
  have e: "environment ?w2 = environment w1" by (simp add: log_call_def)
  have hn: "h = [] \<longleftrightarrow> t w1 = t w" using r(5) by auto
  have f5: "\<not> env_is_end_state X (environment ?w2) \<longrightarrow>
        (\<exists>ns. ?ls = Some ns \<and> (h = [] \<longrightarrow> ns = s) \<and>
              (h \<noteq> [] \<longrightarrow> butlast ns = drop 1 (state (last h))))"
    using r(7,8) hn by auto
  have f6: "calls ?w2 = calls w @ Env_is_end_state # cs @ [Env_is_end_state]"
    using r(9) by (simp add: log_call_def)
  show ?thesis
    by (rule exI[of _ h], rule exI[of _ ?ls], rule exI[of _ ?w2], rule exI[of _ cs])
       (use pg f1 f2 f3 f4 f5 f6 r(10) in simp)
qed







subsection \<open>One iteration of run\<close>

lemma get_initial_state_loop_Some:
  assumes "get_initial_state_loop X av init w = Some y"
  shows "length init < num_channels X \<and> num_channels X \<le> 256"
proof (rule get_initial_state_loop.raw_induct
         [where P = "\<lambda>X av init w y. length init < num_channels X \<and> num_channels X \<le> 256",
          OF _ assms], goal_cases)
  case (1 f X av init w y)
  obtain scr w0 where ra: "random_acts X skip_num av (None, w) = (scr, w0)"
    by (metis surj_pair)
  show ?case
  proof (cases "py_is (length (init @ [scr])) (num_channels X)")
    case True
    then show ?thesis by (auto simp: py_is_def)
  next
    case False
    with 1(2) ra have rc: "f X av (init @ [scr]) w0 = Some y" by simp
    have "length (init @ [scr]) < num_channels X \<and> num_channels X \<le> 256"
      by (rule 1(1)[OF rc])
    then show ?thesis by simp
  qed
qed

lemma reset_gradients_facts:
  "calls (reset_gradients w) = calls w @ [Run_reset_local_grads_ops] \<and>
   t (reset_gradients w) = t w \<and> shared_counter (reset_gradients w) = shared_counter w \<and>
   shared_weights (reset_gradients w) = shared_weights w \<and>
   local_network (reset_gradients w) = local_network w"
  by (simp add: reset_gradients_def log_call_def)

lemma sync_network_parameters_facts:
  "calls (sync_network_parameters w) = calls w @ [Run_copy_operations] \<and>
   t (sync_network_parameters w) = t w \<and>
   shared_counter (sync_network_parameters w) = shared_counter w \<and>
   shared_weights (sync_network_parameters w) = shared_weights w \<and>
   local_grads (sync_network_parameters w) = local_grads w"
  by (simp add: sync_network_parameters_def log_call_def)

lemma bootstrap_facts:
  "bootstrap X ls w = (r, w1) \<Longrightarrow>
     keeps_variables w w1 \<and> t w1 = t w \<and>
     (\<exists>boot. calls w1 = calls w @ boot \<and> list_all is_value_call boot \<and> (ls = None \<longrightarrow> boot = [] \<and> r = 0))"
  by (cases ls) (auto simp: bootstrap_def keeps_variables_def log_call_def)

lemma accumulate_gradients_facts:
  assumes "accumulate_gradients X sb ab rb w = Inr w8"
  shows "sb \<noteq> [] \<and> ab \<noteq> [] \<and> rb \<noteq> [] \<and>
     calls w8 = calls w @ [Run_accum_local_grads_ops sb ab rb] \<and>
     shared_counter w8 = shared_counter w \<and> shared_weights w8 = shared_weights w \<and>
     shared_optimizer w8 = shared_optimizer w \<and> local_network w8 = local_network w \<and>
     local_grads w8 =
       map (\<lambda>(grad, var, local_grad). map2 (+) local_grad grad)
           (zip (tf_gradients X (feed_loss X sb ab rb) (local_network w))
                (zip (local_network w) (local_grads w)))
       @ drop (min (length (tf_gradients X (feed_loss X sb ab rb) (local_network w)))
                   (length (local_network w))) (local_grads w)"
  using assms
  by (auto simp: accumulate_gradients_def log_call_def Let_def split: if_splits)

lemma update_shared_gradients_facts:
  "calls (update_shared_gradients X w) = calls w @ [Run_apply_grads (clipped_grads (local_grads w))] \<and>
   shared_counter (update_shared_gradients X w) = shared_counter w + 1 \<and>
   shared_optimizer (update_shared_gradients X w) =
     fst (apply_gradients X (shared_optimizer w) (zip (clipped_grads (local_grads w)) (shared_weights w))) \<and>
   shared_weights (update_shared_gradients X w) =
     snd (apply_gradients X (shared_optimizer w) (zip (clipped_grads (local_grads w)) (shared_weights w)))
     @ drop (length (snd (apply_gradients X (shared_optimizer w)
                            (zip (clipped_grads (local_grads w)) (shared_weights w)))))
            (shared_weights w) \<and>
   local_grads (update_shared_gradients X w) = local_grads w \<and>
   local_network (update_shared_gradients X w) = local_network w"
  by (simp add: update_shared_gradients_def log_call_def Let_def split: prod.splits)

lemma run_iteration_Inr:
  assumes "run_iteration X w = Some (Inr w')"
  shows "\<exists>warm cs boot sb ab rb w7 w8 init s w5 e h ls w6.
     calls w5 = calls w @ [Run_reset_local_grads_ops, Run_copy_operations] @ warm @ [Env_reset] \<and>
     environment w5 = env_reset X e \<and> t w5 = t_start w5 \<and>
     np_stack init = Inr s \<and> length s = num_channels X \<and>
     play_game X init w5 = Some (Inr (h, ls, w6)) \<and>
     calls w7 = calls w @ [Run_reset_local_grads_ops, Run_copy_operations] @ warm @ [Env_reset] @
                Env_is_end_state # cs @ [Env_is_end_state] @ boot \<and>
     length warm = num_channels X * skip_num \<and> list_all is_act warm \<and>
     list_all is_rollout_call cs \<and> list_all is_value_call boot \<and>
     shared_counter w7 = shared_counter w \<and> shared_weights w7 = shared_weights w \<and>
     shared_optimizer w7 = shared_optimizer w \<and>
     local_grads w7 = local_grads (reset_gradients w) \<and>
     local_network w7 = local_network (sync_network_parameters (reset_gradients w)) \<and>
     accumulate_gradients X sb ab rb w7 = Inr w8 \<and> w' = update_shared_gradients X w8"
proof -
  define w2 where "w2 = sync_network_parameters (reset_gradients w)"
  define w3 where "w3 = w2\<lparr>t_start := t w2\<rparr>"
  have c3: "calls w3 = calls w @ [Run_reset_local_grads_ops, Run_copy_operations]"
    "shared_counter w3 = shared_counter w" "t w3 = t_start w3"
    "shared_weights w3 = shared_weights w" "local_grads w3 = local_grads (reset_gradients w)"
    "local_network w3 = local_network w2"
    by (simp_all add: w3_def w2_def reset_gradients_facts sync_network_parameters_facts)
  have o3: "shared_optimizer w3 = shared_optimizer w"
    by (simp add: w3_def w2_def reset_gradients_def sync_network_parameters_def log_call_def)
  obtain init w4 where gi: "get_initial_state X w3 = Some (init, w4)"
    using assms by (cases "get_initial_state X w3") (auto simp: run_iteration_def Let_def w3_def w2_def)
  then have nc: "0 < num_channels X" "num_channels X \<le> 256"
    using get_initial_state_loop_Some[of X _ "[]" w3] by (auto simp: get_initial_state_def)
  from get_initial_state_facts[OF nc, of w3] gi
  obtain warm s where g: "np_stack init = Inr s" "keeps_variables w3 w4" "t w4 = t w3"
    "calls w4 = calls w3 @ warm" "length warm = num_channels X * skip_num" "list_all is_act warm"
    and gs: "length s = num_channels X"
    by auto
  define w5 where "w5 = log_call Env_reset (w4\<lparr>environment := env_reset X (environment w4)\<rparr>)"
  have c5: "calls w5 = calls w4 @ [Env_reset]" "t w5 = t_start w5" "keeps_variables w4 w5"
    using g(2,3) c3(3) by (simp_all add: w5_def log_call_def keeps_variables_def)
  have e5: "environment w5 = env_reset X (environment w4)"
    by (simp add: w5_def log_call_def)
  have cc5: "calls w5 = calls w @ [Run_reset_local_grads_ops, Run_copy_operations] @ warm @ [Env_reset]"
    using c5(1) g(4) c3(1) by simp
  from play_game_facts[OF c5(2) g(1), of X]
  obtain h ls w6 cs where p: "play_game X init w5 = Some (Inr (h, ls, w6))" "keeps_variables w5 w6"
    "calls w6 = calls w5 @ Env_is_end_state # cs @ [Env_is_end_state]" "list_all is_rollout_call cs"
    by blast
  obtain r w7 where b: "bootstrap X ls w6 = (r, w7)" by (metis surj_pair)
  from bootstrap_facts[OF b]
  obtain boot where bf: "keeps_variables w6 w7" "calls w7 = calls w6 @ boot" "list_all is_value_call boot"
    by blast
  from assms gi p(1) b
  obtain r1 sb ab rb w8 where a8: "accumulate_gradients X sb ab rb w7 = Inr w8"
    and w': "w' = update_shared_gradients X w8"
    by (auto simp: run_iteration_def Let_def w3_def w2_def w5_def split: sum.splits)
  have k: "keeps_variables w3 w7"
    using g(2) c5(3) p(2) bf(1) keeps_variables_trans by blast
  have cc: "calls w7 = calls w @ [Run_reset_local_grads_ops, Run_copy_operations] @ warm @ [Env_reset] @
                Env_is_end_state # cs @ [Env_is_end_state] @ boot"
    using bf(2) p(3) c5(1) g(4) c3(1) by simp
  show ?thesis
    by (rule exI[of _ warm], rule exI[of _ cs], rule exI[of _ boot], rule exI[of _ sb],
        rule exI[of _ ab], rule exI[of _ rb], rule exI[of _ w7], rule exI[of _ w8],
        rule exI[of _ init], rule exI[of _ s], rule exI[of _ w5],
        rule exI[of _ "environment w4"], rule exI[of _ h], rule exI[of _ ls], rule exI[of _ w6])
       (use w' a8 cc k c3 o3 g(1,5,6) gs p(1,4) bf(3) cc5 e5 c5(2) in
          \<open>simp add: keeps_variables_def w2_def\<close>)
qed

lemma is_act_not_other:
  "is_act c \<Longrightarrow> c \<noteq> Env_reset \<and> c \<noteq> Run_reset_local_grads_ops \<and> c \<noteq> Run_copy_operations \<and>
     c \<noteq> Env_is_end_state \<and> \<not> is_apply_call c"
  by (cases c) simp_all

lemma is_rollout_call_not_other:
  "is_rollout_call c \<Longrightarrow> c \<noteq> Env_reset \<and> c \<noteq> Run_reset_local_grads_ops \<and>
     c \<noteq> Run_copy_operations \<and> \<not> is_apply_call c"
  by (cases c) simp_all

lemma is_value_call_not_other:
  "is_value_call c \<Longrightarrow> c \<noteq> Env_reset \<and> c \<noteq> Run_reset_local_grads_ops \<and>
     c \<noteq> Run_copy_operations \<and> \<not> is_apply_call c"
  by (cases c) simp_all

lemma play_game_terminal:
  assumes "env_is_end_state X (environment w)" "np_stack init = Inr s"
  shows "play_game X init w =
     Some (Inr ([], None, log_call Env_is_end_state (log_call Env_is_end_state w)))"
  using assms
  by (simp add: play_game_def Let_def log_call_def)
     (subst play_game_loop.simps, simp add: log_call_def)

lemma reset_gradients_zeros:
  assumes "length (local_grads w) = length (local_network w)"
  shows "local_grads (reset_gradients w) = map (\<lambda>v. replicate (length v) 0) (local_network w)"
proof -
  have "map (\<lambda>(var, local_grad). replicate (length var) (0::real)) (zip xs ys) =
        map (\<lambda>v. replicate (length v) 0) xs" if "length ys = length xs" for xs ys :: "real list list"
    using that by (induction xs ys rule: list_induct2') simp_all
  then show ?thesis using assms by (simp add: reset_gradients_def log_call_def)
qed

lemma sync_same_shape:
  assumes "map length (shared_weights w) = map length (local_network w)"
  shows "local_network (sync_network_parameters w) = shared_weights w"
proof -
  have l: "length (shared_weights w) = length (local_network w)"
    using assms by (metis length_map)
  have "map (\<lambda>(origin, target). origin) (zip xs ys) = xs" if "length ys = length xs"
    for xs ys :: "real list list"
    using that by (induction xs ys rule: list_induct2') simp_all
  then show ?thesis using l by (simp add: sync_network_parameters_def log_call_def)
qed

lemma add_zeros: "map2 (+) (replicate (length g) (0::real)) g = g"
  by (induction g) simp_all

lemma accumulate_from_zero:
  assumes "map length gs = map length vs" "length ws = length vs"
  shows "map (\<lambda>(grad, var, local_grad). map2 (+) local_grad grad)
           (zip gs (zip ws (map (\<lambda>v. replicate (length v) (0::real)) vs))) = gs"
  using assms
proof (induction gs arbitrary: vs ws)
  case Nil
  then show ?case by simp
next
  case (Cons g gs)
  then obtain v vs' where vs: "vs = v # vs'" by (cases vs) auto
  with Cons.prems obtain u ws' where ws: "ws = u # ws'" by (cases ws) auto
  have lg: "length v = length g" using Cons.prems(1) vs by simp
  have "map (\<lambda>(grad, var, local_grad). map2 (+) local_grad grad)
           (zip gs (zip ws' (map (\<lambda>v. replicate (length v) (0::real)) vs'))) = gs"
    by (rule Cons.IH) (use Cons.prems vs ws in simp_all)
  then show ?case using add_zeros[of g] lg by (simp add: vs ws)
qed

lemma run_iteration_degenerate:
  assumes "0 < num_channels X" "num_channels X \<le> 256"
    "\<forall>e. env_is_end_state X (env_reset X e)"
  shows "\<exists>warm w6.
     run_iteration X w = Some (Inl (ValueError, w6)) \<and>
     calls w6 = calls w @ [Run_reset_local_grads_ops, Run_copy_operations] @ warm @
                [Env_reset, Env_is_end_state, Env_is_end_state] \<and>
     length warm = num_channels X * skip_num \<and> list_all is_act warm \<and>
     shared_counter w6 = shared_counter w \<and> shared_weights w6 = shared_weights w \<and>
     shared_optimizer w6 = shared_optimizer w"
proof -
  define w2 where "w2 = sync_network_parameters (reset_gradients w)"
  define w3 where "w3 = w2\<lparr>t_start := t w2\<rparr>"
  have c3: "calls w3 = calls w @ [Run_reset_local_grads_ops, Run_copy_operations]"
    "shared_counter w3 = shared_counter w" "t w3 = t_start w3"
    "shared_weights w3 = shared_weights w"
    by (simp_all add: w3_def w2_def reset_gradients_facts sync_network_parameters_facts)
  have o3: "shared_optimizer w3 = shared_optimizer w"
    by (simp add: w3_def w2_def reset_gradients_def sync_network_parameters_def log_call_def)
  from get_initial_state_facts[OF assms(1,2), of w3]
  obtain init w4 warm s where g: "get_initial_state X w3 = Some (init, w4)"
    "np_stack init = Inr s" "keeps_variables w3 w4" "t w4 = t w3"
    "calls w4 = calls w3 @ warm" "length warm = num_channels X * skip_num" "list_all is_act warm"
    by blast
  define w5 where "w5 = log_call Env_reset (w4\<lparr>environment := env_reset X (environment w4)\<rparr>)"
  define w6 where "w6 = log_call Env_is_end_state (log_call Env_is_end_state w5)"
  have e5: "env_is_end_state X (environment w5)"
    using assms(3) by (simp add: w5_def log_call_def)
  have pg: "play_game X init w5 = Some (Inr ([], None, w6))"
    unfolding w6_def by (rule play_game_terminal[OF e5 g(2)])
  have t6: "t w6 = t_start w6"
    using g(3,4) c3(3) by (simp add: w6_def w5_def log_call_def keeps_variables_def)
  have ri: "run_iteration X w = Some (Inl (ValueError, w6))"
    using g(1) pg t6
    by (simp add: run_iteration_def Let_def w2_def[symmetric] w3_def[symmetric] w5_def[symmetric]
        bootstrap_def range_down_def accumulate_gradients_def)
  have c6: "calls w6 = calls w @ [Run_reset_local_grads_ops, Run_copy_operations] @ warm @
                [Env_reset, Env_is_end_state, Env_is_end_state]"
    using g(5) c3(1) by (simp add: w6_def w5_def log_call_def)
  have k6: "shared_counter w6 = shared_counter w" "shared_weights w6 = shared_weights w"
    "shared_optimizer w6 = shared_optimizer w"
    using g(3) c3(2,4) o3 by (simp_all add: w6_def w5_def log_call_def keeps_variables_def)
  show ?thesis
    by (rule exI[of _ warm], rule exI[of _ w6]) (use ri c6 g(6,7) k6 in simp)
qed

lemma sync_same_length:
  assumes "length (shared_weights w) = length (local_network w)"
  shows "local_network (sync_network_parameters w) = shared_weights w"
proof -
  have "map (\<lambda>(origin, target). origin) (zip xs ys) = xs" if "length ys = length xs"
    for xs ys :: "real list list"
    using that by (induction xs ys rule: list_induct2') simp_all
  then show ?thesis using assms by (simp add: sync_network_parameters_def log_call_def)
qed

lemma accumulate_after_reset:
  assumes "length (local_grads w) = length (local_network w)"
    and "map length (shared_weights w) = map length (local_network w)"
    and "\<forall>L ws. map length (tf_gradients X L ws) = map length ws"
    and "local_grads w7 = local_grads (reset_gradients w)"
    and "local_network w7 = local_network (sync_network_parameters (reset_gradients w))"
    and "accumulate_gradients X sb ab rb w7 = Inr w8"
  shows "local_grads w8 = tf_gradients X (feed_loss X sb ab rb) (shared_weights w)"
proof -
  note a8 = accumulate_gradients_facts[OF assms(6)]
  have len: "length (shared_weights w) = length (local_network w)"
    using assms(2) by (metis length_map)
  have n7: "local_network w7 = shared_weights w"
    using assms(5) sync_same_length[of "reset_gradients w"] len by (simp add: reset_gradients_facts)
  have g7: "local_grads w7 = map (\<lambda>v. replicate (length v) 0) (local_network w)"
    using assms(4) reset_gradients_zeros[of w] assms(1) by simp
  let ?gs = "tf_gradients X (feed_loss X sb ab rb) (shared_weights w)"
  have sh: "map length ?gs = map length (local_network w)" using assms(2,3) by simp
  then have lgs: "length ?gs = length (local_network w)" by (metis length_map)
  show ?thesis
    using a8 accumulate_from_zero[OF sh len] lgs len by (simp add: n7 g7)
qed



subsection \<open>Evaluation on the concrete inputs\<close>

lemmas eval_defs = run_iteration_def reset_gradients_def sync_network_parameters_def
      get_initial_state_def get_initial_state_loop.simps play_game_def play_game_loop.simps
      bootstrap_def range_down_def accumulate_gradients_def update_shared_gradients_def
      clipped_grads_def clip_by_value_def grad_clip_def np_clip_def history_get_def extract_history_def
      counting_env_def fresh_thread_def log_call_def skip4 t_max_def py_is_def Let_def eval_nat_numeral

lemma run8: "\<exists>w'. run_iteration (counting_env 8) (fresh_thread 0) = Some (Inr w')"
  by (simp add: eval_defs)

section \<open>Properties\<close>

subsection \<open>The bound of the outer loop\<close>

text \<open>
  C1. The claim: the outer loop stops starting iterations exactly when the shared
  step counter has reached the configured maximum (\<open>global_t_max\<close>) or the stop flag
  is raised. The test of \<open>run\<close> compares the counter with \<open>self.t_max\<close>, the rollout
  horizon 10. With the counter at 10, below the configured maximum, and the stop
  flag unset, the test is false and \<open>run\<close> returns without an iteration.
\<close>

theorem run_guard_bound_is_rollout_horizon: "shared_counter (fresh_thread 10) = 10 \<and> shared_counter (fresh_thread 10) < global_t_max \<and>
   stop (fresh_thread 10) = False \<and> run_guard (fresh_thread 10) = False \<and>
   run (counting_env 8) (fresh_thread 10) = Some (Inr (fresh_thread 10))"
  by (simp add: run.simps run_guard_def fresh_thread_def t_max_def global_t_max_def)

subsection \<open>The reward of a step record\<close>

text \<open>
  C2. The claim: the reward of a step record is the sum of the clipped rewards of
  the \<open>skip_num\<close> sub-steps of that step alone. In the counting environment every
  sub-step gives 1, so every step collects 4; the episode ends after two steps. The
  recorded rewards are 4 and 8: the second record holds the first step's rewards
  too, since \<open>reward\<close> is never set back inside the loop.
\<close>

theorem play_game_reward_accumulates_across_steps: "(case play_game (counting_env 8) [Some 0] (fresh_thread 0) of
     Some (Inr (history, last_state, w)) \<Rightarrow> map reward history | _ \<Rightarrow> []) = [4, 8]"
  by (simp add: play_game_def play_game_loop.simps counting_env_def fresh_thread_def log_call_def skip4 t_max_def np_clip_def Let_def)

subsection \<open>The loss\<close>

text \<open>
  C3, as stated: the loss equals the policy loss of the specification, with the term
  \<open>+ beta * entropy\<close> for the standard entropy, plus half the value loss. This
  fails for a single sample with the uniform policy over four actions and return
  and value 0: the code's loss is negative, the specification's positive.
\<close>

theorem total_loss_not_spec_loss:
  "total_loss [[1 / 4, 1 / 4, 1 / 4, 1 / 4]] [[1 / 4, 1 / 4, 1 / 4, 1 / 4]] [[0]] [one_hot 4 0] [[0]]
   \<noteq> Some (spec_total_loss (\<lambda>s. [1 / 4, 1 / 4, 1 / 4, 1 / 4]) (\<lambda>s. 0) (\<lambda>s. 0) (\<lambda>s. 0) [()])"
proof -
  have "total_loss [[1 / 4, 1 / 4, 1 / 4, 1 / 4]] [[1 / 4, 1 / 4, 1 / 4, 1 / 4]] [[0]] [one_hot 4 0] [[0]]
      = Some (- beta * entropy_eps [1 / 4, 1 / 4, 1 / 4, 1 / 4])"
    using total[of "[()]" "\<lambda>s. 0" 4 "\<lambda>s. [1 / 4, 1 / 4, 1 / 4, 1 / 4]" "\<lambda>s. 0" "\<lambda>s. 0"]
    by simp
  moreover have "entropy_eps [1 / 4, 1 / 4, 1 / 4, 1 / 4] = - ln (1 / 4 + eps)"
    by (simp add: entropy_eps_def)
  ultimately have a: "total_loss [[1 / 4, 1 / 4, 1 / 4, 1 / 4]] [[1 / 4, 1 / 4, 1 / 4, 1 / 4]] [[0]]
       [one_hot 4 0] [[0]] = Some (beta * ln (1 / 4 + eps))"
    by simp
  have b: "spec_total_loss (\<lambda>s. [1 / 4, 1 / 4, 1 / 4, 1 / 4]) (\<lambda>s. 0) (\<lambda>s. 0) (\<lambda>s. 0) [()]
      = beta * ln 4"
    by (simp add: spec_total_loss_def spec_entropy_def ln_div)
  have "ln (1 / 4 + eps) < 0" by (rule ln_less_zero) (simp_all add: eps_def)
  then have c: "beta * ln (1 / 4 + eps) < 0" by (simp add: beta_def)
  have "0 < ln (4::real)" by simp
  then have d: "0 < beta * ln 4" by (simp add: beta_def)
  have "beta * ln (1 / 4 + eps) \<noteq> beta * ln 4" using c d by linarith
  then show ?thesis unfolding a b by blast
qed

text \<open>
  C3, amended: for a batch in which no probability is negative and the probability
  of every action taken is positive, the loss whose gradients are accumulated is a
  finite number, the policy loss plus half the value loss, where the policy loss is
  \<open>- \<Sum> ln (\<pi>(a|s)) * (R - V(s)) - beta * \<Sum> entropy_eps (\<pi>(.|s))\<close>: the entropy, with
  \<open>eps\<close> inside its logarithm, enters with a minus sign, so a lower loss means a
  higher entropy. The value loss is \<open>\<Sum> (R - V(s))\<^sup>2\<close>. The batch holds one one-hot
  action row and one return row per sample.
\<close>

theorem accumulated_loss_closed_form:
  assumes "\<forall>s\<in>set S. A s < n \<and> length (network_pi X ws (st s)) = n \<and>
             0 < network_pi X ws (st s) ! A s \<and> (\<forall>q\<in>set (network_pi X ws (st s)). 0 \<le> q)"
  shows "feed_loss X (map st S) (map (\<lambda>s. one_hot n (A s)) S) (map (\<lambda>s. [R s]) S) ws =
     Some ((- (\<Sum>s\<leftarrow>S. ln (network_pi X ws (st s) ! A s) * (R s - network_value X ws (st s)))
            - beta * (\<Sum>s\<leftarrow>S. entropy_eps (network_pi X ws (st s))))
           + (1 / 2) * (\<Sum>s\<leftarrow>S. (R s - network_value X ws (st s))\<^sup>2))"
  unfolding feed_loss_def
  using total[of S A n "\<lambda>s. network_pi X ws (st s)" "\<lambda>s. network_value X ws (st s)" R] assms
  by (simp add: comp_def)

theorem accumulated_loss_closed_form_witness:
  "(0::nat) < 4 \<and> length (network_pi (counting_env 8) [] [0]) = 4 \<and>
   0 < network_pi (counting_env 8) [] [0] ! 0 \<and>
   set (network_pi (counting_env 8) [] [0]) = {1 / 4} \<and>
   feed_loss (counting_env 8) [[0]] [one_hot 4 0] [[1]] [] =
     Some ((- (ln (1 / 4) * (1 - 5)) - beta * entropy_eps [1 / 4, 1 / 4, 1 / 4, 1 / 4])
           + (1 / 2) * (1 - 5)\<^sup>2)"
  using accumulated_loss_closed_form[of "[()]" "\<lambda>s. 0" 4 "counting_env 8" "[]" "\<lambda>s. [0]" "\<lambda>s. 1"]
  by (simp add: counting_env_def)

subsection \<open>The arguments of the logarithm\<close>

text \<open>
  C4. The claim: every logarithm of a policy probability is taken of the probability
  plus \<open>eps\<close>, so no logarithm of zero occurs. The logarithm of the whole policy
  (\<open>log_pi\<close>) has the constant; the logarithm of the chosen action's probability
  (\<open>log_pi_a_s\<close>) has not. For the policy \<open>[1, 0, 0, 0]\<close> and the action 1 its
  argument is exactly 0.
\<close>

theorem log_of_chosen_probability_unguarded:
  "tf_log_finite (log_pi_arg [[1, 0, 0, 0]]) \<and>
   pi_a_s [[1, 0, 0, 0]] [one_hot 4 1] = [[0]] \<and>
   \<not> tf_log_finite (pi_a_s [[1, 0, 0, 0]] [one_hot 4 1])"
  by (simp add: tf_log_finite_def log_pi_arg_def pi_a_s_def tf_add_scalar_def eps_def
      reduce_sum_1_def tf_mul_def one_hot_def eval_nat_numeral)

subsection \<open>Interrupt\<close>

text \<open>
  C5. The claim: on an interrupt the stop flag that the loop test reads is raised on
  every worker. With two threads, the handler installed is the one of the thread
  constructed last, so a SIGINT raises \<open>stop\<close> on that thread only; the
  \<open>except KeyboardInterrupt\<close> branch of \<open>main.py\<close> sets \<open>kill_received\<close>, which the
  loop test does not read. Either way the first thread's test stays true.
\<close>

theorem interrupt_leaves_stop_flag_unset: "map stop (threads (sigint two_threads)) = [False, True] \<and>
   map stop (threads (keyboard_interrupt two_threads)) = [False, False] \<and>
   map kill_received (threads (keyboard_interrupt two_threads)) = [Some True, Some True] \<and>
   run_guard (threads (sigint two_threads) ! 0) \<and>
   list_all run_guard (threads (keyboard_interrupt two_threads))"
  by (simp add: two_threads_def append_thread_def sigint_def keyboard_interrupt_def signal_handler_def fresh_thread_def run_guard_def t_max_def)

subsection \<open>Gradient clipping\<close>

text \<open>
  C9. The gradients handed to the optimizer of the shared network are the
  accumulated gradients clipped element by element to the interval from -40 to 40:
  an element below -40 becomes -40, one above 40 becomes 40, one inside stays, and
  the shapes stay.
\<close>

theorem applied_gradients_clipped:
  "calls (update_shared_gradients X w) = calls w @ [Run_apply_grads (clipped_grads (local_grads w))] \<and>
   shared_optimizer (update_shared_gradients X w) =
     fst (apply_gradients X (shared_optimizer w) (zip (clipped_grads (local_grads w)) (shared_weights w))) \<and>
   length (clipped_grads (local_grads w)) = length (local_grads w) \<and>
   (\<forall>i<length (local_grads w).
      length (clipped_grads (local_grads w) ! i) = length (local_grads w ! i) \<and>
      (\<forall>j<length (local_grads w ! i).
         clipped_grads (local_grads w) ! i ! j =
           (if local_grads w ! i ! j < - 40 then - 40
            else if 40 < local_grads w ! i ! j then 40 else local_grads w ! i ! j) \<and>
         - 40 \<le> clipped_grads (local_grads w) ! i ! j \<and> clipped_grads (local_grads w) ! i ! j \<le> 40))"
proof -
  have a: "calls (update_shared_gradients X w) = calls w @ [Run_apply_grads (clipped_grads (local_grads w))]"
    by (simp add: update_shared_gradients_def log_call_def Let_def split: prod.splits)
  have b: "shared_optimizer (update_shared_gradients X w) =
     fst (apply_gradients X (shared_optimizer w) (zip (clipped_grads (local_grads w)) (shared_weights w)))"
    by (simp add: update_shared_gradients_def log_call_def Let_def split: prod.splits)
  have c: "length (clipped_grads gs) = length gs" for gs
    by (simp add: clipped_grads_def)
  have d: "length (clipped_grads gs ! i) = length (gs ! i)" if "i < length gs" for gs i
    using that by (simp add: clipped_grads_def clip_by_value_def)
  have e: "clipped_grads gs ! i ! j = (if gs ! i ! j < - 40 then - 40 else if 40 < gs ! i ! j then 40 else gs ! i ! j)"
    if "i < length gs" "j < length (gs ! i)" for gs i j
    using that by (simp add: clipped_grads_def clip_by_value_def grad_clip_def min_def max_def)
  show ?thesis using a b c d e by simp
qed

theorem applied_gradients_clipped_witness:
  "calls (update_shared_gradients (counting_env 8) ((fresh_thread 0)\<lparr>local_grads := [[- 50, 3, 100]]\<rparr>))
     = [Run_apply_grads [[- 40, 3, 40]]]"
proof -
  have "clipped_grads [[- 50, 3, 100]] = [[- 40, 3, 40]]"
    using applied_gradients_clipped[of "counting_env 8" "(fresh_thread 0)\<lparr>local_grads := [[- 50, 3, 100]]\<rparr>"]
    by (simp add: list_eq_iff_nth_eq nth_Cons' All_less_Suc eval_nat_numeral)
  then show ?thesis
    using applied_gradients_clipped[of "counting_env 8" "(fresh_thread 0)\<lparr>local_grads := [[- 50, 3, 100]]\<rparr>"] 
    by (simp add: fresh_thread_def)
qed

subsection \<open>The order of the steps of an iteration\<close>

text \<open>
  C6, as stated: in every iteration the synchronisation runs first, then the
  accumulator is reset, then the environment is reset, then the warm-up runs, then
  the rollout. In the counting environment the first seven calls of an iteration
  are the reset of the accumulator, the synchronisation, the four warm-up actions
  and then the reset of the environment.
\<close>

theorem iteration_order_counterexample:
  "take 7 (calls_of (run_iteration (counting_env 8) (fresh_thread 0))) =
   [Run_reset_local_grads_ops, Run_copy_operations, Env_act 0, Env_act 0, Env_act 0, Env_act 0,
    Env_reset]"
  by (simp add: calls_of_def eval_defs)

text \<open>
  C6, amended: in every iteration that returns, the steps occur in the order of the
  code: first the accumulator is reset to zero, then the local network is copied
  from the shared one, then the warm-up takes \<open>num_channels\<close> rounds of \<open>skip_num\<close>
  random actions, then the environment is reset, and only then the rollout begins,
  with its first test of the end state; what follows contains no reset of the
  environment, no reset of the accumulator and no synchronisation. The rollout
  starts in an environment that a reset has just returned, with \<open>t = t_start\<close> and
  a stack of \<open>num_channels\<close> warm-up screens. The reset and the copy are seen in
  the state after the iteration: the local network is the shared network as it was
  before the iteration (given as many local as shared variables), and the
  accumulator holds the gradients of this iteration's batch at those weights and
  nothing from before (given one accumulator per variable, equal shapes of shared
  and local variables, and gradients of the shapes of the variables).
\<close>

theorem iteration_order:
  assumes "run_iteration X w = Some (Inr w')"
  shows "\<exists>warm rest states_batch action_batch reward_batch.
     calls w' = calls w @ [Run_reset_local_grads_ops, Run_copy_operations] @ warm @ [Env_reset] @
                Env_is_end_state # rest \<and>
     length warm = num_channels X * skip_num \<and> list_all is_act warm \<and>
     Env_reset \<notin> set rest \<and> Run_reset_local_grads_ops \<notin> set rest \<and>
     Run_copy_operations \<notin> set rest \<and>
     Run_accum_local_grads_ops states_batch action_batch reward_batch \<in> set rest \<and>
     (\<exists>initial_state s w5 e history last_state w6.
        calls w5 = calls w @ [Run_reset_local_grads_ops, Run_copy_operations] @ warm @ [Env_reset] \<and>
        environment w5 = env_reset X e \<and> t w5 = t_start w5 \<and>
        np_stack initial_state = Inr s \<and> length s = num_channels X \<and>
        play_game X initial_state w5 = Some (Inr (history, last_state, w6))) \<and>
     (length (shared_weights w) = length (local_network w) \<longrightarrow>
        local_network w' = shared_weights w) \<and>
     (length (local_grads w) = length (local_network w) \<and>
      map length (shared_weights w) = map length (local_network w) \<and>
      (\<forall>L ws. map length (tf_gradients X L ws) = map length ws) \<longrightarrow>
        local_grads w' =
          tf_gradients X (feed_loss X states_batch action_batch reward_batch) (shared_weights w))"
proof -
  from run_iteration_Inr[OF assms]
  obtain warm cs boot sb ab rb w7 w8 init s w5 e h ls w6 where r:
    "calls w7 = calls w @ [Run_reset_local_grads_ops, Run_copy_operations] @ warm @ [Env_reset] @
                Env_is_end_state # cs @ [Env_is_end_state] @ boot"
    "length warm = num_channels X * skip_num" "list_all is_act warm"
    "list_all is_rollout_call cs" "list_all is_value_call boot"
    "local_grads w7 = local_grads (reset_gradients w)"
    "local_network w7 = local_network (sync_network_parameters (reset_gradients w))"
    "accumulate_gradients X sb ab rb w7 = Inr w8" "w' = update_shared_gradients X w8"
    and st: "calls w5 = calls w @ [Run_reset_local_grads_ops, Run_copy_operations] @ warm @ [Env_reset]"
    "environment w5 = env_reset X e" "t w5 = t_start w5"
    "np_stack init = Inr s" "length s = num_channels X"
    "play_game X init w5 = Some (Inr (h, ls, w6))"
    by blast
  have start: "\<exists>initial_state s w5 e history last_state w6.
        calls w5 = calls w @ [Run_reset_local_grads_ops, Run_copy_operations] @ warm @ [Env_reset] \<and>
        environment w5 = env_reset X e \<and> t w5 = t_start w5 \<and>
        np_stack initial_state = Inr s \<and> length s = num_channels X \<and>
        play_game X initial_state w5 = Some (Inr (history, last_state, w6))"
    using st by blast
  note a8 = accumulate_gradients_facts[OF r(8)]
  note u = update_shared_gradients_facts[of X w8]
  let ?G = "clipped_grads (local_grads w8)"
  let ?rest = "cs @ [Env_is_end_state] @ boot @ [Run_accum_local_grads_ops sb ab rb, Run_apply_grads ?G]"
  have c: "calls w' = calls w @ [Run_reset_local_grads_ops, Run_copy_operations] @ warm @ [Env_reset] @
                Env_is_end_state # ?rest"
    using r(1,9) a8 u by simp
  have n2: "\<forall>c\<in>set cs. c \<noteq> Env_reset \<and> c \<noteq> Run_reset_local_grads_ops \<and> c \<noteq> Run_copy_operations"
    using r(4) is_rollout_call_not_other by (fastforce simp: list_all_iff)
  have n3: "\<forall>c\<in>set boot. c \<noteq> Env_reset \<and> c \<noteq> Run_reset_local_grads_ops \<and> c \<noteq> Run_copy_operations"
    using r(5) is_value_call_not_other by (fastforce simp: list_all_iff)
  have d: "Env_reset \<notin> set ?rest \<and> Run_reset_local_grads_ops \<notin> set ?rest \<and>
     Run_copy_operations \<notin> set ?rest"
    using n2 n3 by auto
  have e: "Run_accum_local_grads_ops sb ab rb \<in> set ?rest" by simp
  have ln: "local_network w' = local_network (sync_network_parameters (reset_gradients w))"
    using r(7,9) a8 u by simp
  have f: "local_network w' = shared_weights w"
    if "length (shared_weights w) = length (local_network w)"
    using ln sync_same_length[of "reset_gradients w"] that
    by (simp add: reset_gradients_facts)
  have g: "local_grads w' = tf_gradients X (feed_loss X sb ab rb) (shared_weights w)"
    if h: "length (local_grads w) = length (local_network w) \<and>
      map length (shared_weights w) = map length (local_network w) \<and>
      (\<forall>L ws. map length (tf_gradients X L ws) = map length ws)"
  proof -
    have len: "length (shared_weights w) = length (local_network w)"
      using h by (metis length_map)
    have n7: "local_network w7 = shared_weights w"
      using r(7) sync_same_length[of "reset_gradients w"] len by (simp add: reset_gradients_facts)
    have g7: "local_grads w7 = map (\<lambda>v. replicate (length v) 0) (local_network w)"
      using r(6) reset_gradients_zeros[of w] h by simp
    let ?gs = "tf_gradients X (feed_loss X sb ab rb) (shared_weights w)"
    have sh: "map length ?gs = map length (local_network w)" using h by simp
    then have lgs: "length ?gs = length (local_network w)" by (metis length_map)
    have "local_grads w8 = ?gs"
      using a8 accumulate_from_zero[OF sh len] lgs len by (simp add: n7 g7)
    then show ?thesis using r(9) u by simp
  qed
  show ?thesis
    by (rule exI[of _ warm], rule exI[of _ ?rest], rule exI[of _ sb], rule exI[of _ ab],
        rule exI[of _ rb])
       (use c r(2,3) d e f g start in blast)
qed

theorem iteration_order_witness:
  "length (local_grads (fresh_thread 0)) = length (local_network (fresh_thread 0)) \<and>
   map length (shared_weights (fresh_thread 0)) = map length (local_network (fresh_thread 0)) \<and>
   (\<forall>L ws. map length (tf_gradients (counting_env 8) L ws) = map length ws) \<and>
   (\<exists>w' warm rest.
      run_iteration (counting_env 8) (fresh_thread 0) = Some (Inr w') \<and>
      calls w' = [Run_reset_local_grads_ops, Run_copy_operations] @ warm @ [Env_reset] @
                 Env_is_end_state # rest \<and>
      length warm = 4 \<and> Env_reset \<notin> set rest \<and>
      local_network w' = shared_weights (fresh_thread 0) \<and>
      local_grads w' = replicate 10 [0])"
proof -
  have h: "length (local_grads (fresh_thread 0)) = length (local_network (fresh_thread 0)) \<and>
     map length (shared_weights (fresh_thread 0)) = map length (local_network (fresh_thread 0)) \<and>
     (\<forall>L ws. map length (tf_gradients (counting_env 8) L ws) = map length ws)"
    by (simp add: fresh_thread_def counting_env_def comp_def)
  then have l: "length (shared_weights (fresh_thread 0)) = length (local_network (fresh_thread 0))"
    by (metis length_map)
  from run8 obtain w' where r: "run_iteration (counting_env 8) (fresh_thread 0) = Some (Inr w')"
    by blast
  from iteration_order[OF r] h l
  obtain warm rest sb ab rb where o:
    "calls w' = calls (fresh_thread 0) @ [Run_reset_local_grads_ops, Run_copy_operations] @ warm @
                [Env_reset] @ Env_is_end_state # rest"
    "length warm = num_channels (counting_env 8) * skip_num" "Env_reset \<notin> set rest"
    "local_network w' = shared_weights (fresh_thread 0)"
    "local_grads w' = tf_gradients (counting_env 8) (feed_loss (counting_env 8) sb ab rb)
         (shared_weights (fresh_thread 0))"
    by blast
  have c0: "calls (fresh_thread 0) = []" by (simp add: fresh_thread_def)
  have w4: "num_channels (counting_env 8) * skip_num = 4" by (simp add: counting_env_def skip_num_def)
  have g0: "tf_gradients (counting_env 8) (feed_loss (counting_env 8) sb ab rb)
         (shared_weights (fresh_thread 0)) = replicate 10 [0]"
    by (simp add: counting_env_def fresh_thread_def)
  show ?thesis
    using h r o c0 w4 g0 by auto
qed

subsection \<open>The returns\<close>



subsection \<open>The rollout horizon\<close>

text \<open>
  C8. A rollout that starts with \<open>t = t_start\<close>, as \<open>run\<close> sets it, returns: the
  counter test is reached. It records at most \<open>t_max = 10\<close> steps, \<open>t - t_start\<close> is
  the number of recorded steps and at most \<open>t_max\<close> when the loop is left, and a
  rollout of fewer than 10 steps has left the environment in an end state.
\<close>

theorem rollout_horizon_bound:
  assumes "t w = t_start w" "np_stack initial_state = Inr s"
  shows "\<exists>history last_state w1.
     play_game X initial_state w = Some (Inr (history, last_state, w1)) \<and>
     t_max = 10 \<and> length history \<le> 10 \<and> t w1 - t_start w1 = int (length history) \<and>
     t w1 - t_start w1 \<le> t_max \<and>
     (length history < 10 \<longrightarrow> env_is_end_state X (environment w1))"
proof -
  from play_game_facts[OF assms, of X]
  obtain h ls w1 where r: "play_game X initial_state w = Some (Inr (h, ls, w1))"
    "t w1 - t_start w1 = int (length h)" "length h \<le> 10"
    "length h < 10 \<longrightarrow> env_is_end_state X (environment w1)"
    by blast
  show ?thesis
    by (rule exI[of _ h], rule exI[of _ ls], rule exI[of _ w1])
       (use r in \<open>simp add: t_max_def\<close>)
qed

theorem rollout_horizon_bound_witness:
  "t (fresh_thread 0) = t_start (fresh_thread 0) \<and> np_stack [Some (0::nat)] = Inr [0] \<and>
   (\<exists>history last_state w1.
      play_game (counting_env 8) [Some 0] (fresh_thread 0) = Some (Inr (history, last_state, w1)) \<and>
      length history \<le> 10 \<and> t w1 - t_start w1 = int (length history))"
proof -
  have a: "t (fresh_thread 0) = t_start (fresh_thread 0)" by (simp add: fresh_thread_def)
  have b: "np_stack [Some (0::nat)] = Inr [0]" by simp
  from rollout_horizon_bound[OF a b, of "counting_env 8"] a b show ?thesis by blast
qed

subsection \<open>One apply per iteration\<close>

text \<open>
  C10, as stated: every iteration performs one apply and advances the step counter,
  also when the environment is in an end state right after the reset, where empty
  batches are fed and accumulation and apply still run. In the counting environment
  that is over at once, the iteration raises ValueError when it feeds the empty
  batches: the step counter is still 0 and the calls logged end with the two tests
  of the end state, with no accumulation and no apply.
\<close>

theorem iteration_applies_counterexample:
  "raised_of (run_iteration (counting_env 0) (fresh_thread 0)) =
     Some (ValueError, 0,
           [Run_reset_local_grads_ops, Run_copy_operations, Env_act 0, Env_act 0, Env_act 0,
            Env_act 0, Env_reset, Env_is_end_state, Env_is_end_state])"
  by (simp add: raised_of_def eval_defs)

text \<open>
  C10, amended: every iteration that returns has advanced the shared step counter by
  one and made exactly one apply, as its last call, right after the accumulation
  over a batch that is not empty; the apply hands the accumulated gradients, each
  element clamped to the interval from -40 to 40, with the shared variables to the
  optimizer and stores the optimizer's state and the new values, and the
  accumulated gradients are those of this iteration's batch (under the conditions
  on shapes of C6). When the environment is in an end state right after every
  reset, the rollout makes no step (no policy evaluation), the seed is 0 (no value
  evaluation), the batches are empty, and feeding them raises ValueError: the
  iteration does not return, neither accumulation nor apply runs, and the step
  counter, the shared variables and the optimizer stay as they were.
\<close>

theorem iteration_applies_once:
  "(run_iteration X w = Some (Inr w') \<longrightarrow>
      shared_counter w' = shared_counter w + 1 \<and>
      (\<exists>cs states_batch action_batch reward_batch G.
         calls w' = calls w @ cs @
                    [Run_accum_local_grads_ops states_batch action_batch reward_batch,
                     Run_apply_grads G] \<and>
         list_all (\<lambda>c. \<not> is_apply_call c) cs \<and>
         states_batch \<noteq> [] \<and>
         G = map (map (\<lambda>v. min (max v (- 40)) 40)) (local_grads w') \<and>
         shared_optimizer w' =
           fst (apply_gradients X (shared_optimizer w) (zip G (shared_weights w))) \<and>
         shared_weights w' =
           snd (apply_gradients X (shared_optimizer w) (zip G (shared_weights w))) @
           drop (length (snd (apply_gradients X (shared_optimizer w) (zip G (shared_weights w)))))
                (shared_weights w) \<and>
         (length (local_grads w) = length (local_network w) \<and>
          map length (shared_weights w) = map length (local_network w) \<and>
          (\<forall>L ws. map length (tf_gradients X L ws) = map length ws) \<longrightarrow>
            local_grads w' =
              tf_gradients X (feed_loss X states_batch action_batch reward_batch)
                (shared_weights w)))) \<and>
   (0 < num_channels X \<and> num_channels X \<le> 256 \<and> (\<forall>e. env_is_end_state X (env_reset X e)) \<longrightarrow>
      (\<exists>w1 warm.
         run_iteration X w = Some (Inl (ValueError, w1)) \<and>
         calls w1 = calls w @ [Run_reset_local_grads_ops, Run_copy_operations] @ warm @
                    [Env_reset, Env_is_end_state, Env_is_end_state] \<and>
         list_all is_act warm \<and> shared_counter w1 = shared_counter w \<and>
         shared_weights w1 = shared_weights w \<and> shared_optimizer w1 = shared_optimizer w))"
proof (intro conjI impI)
  assume a: "run_iteration X w = Some (Inr w')"
  from run_iteration_Inr[OF a]
  obtain warm cs boot sb ab rb w7 w8 where r:
    "calls w7 = calls w @ [Run_reset_local_grads_ops, Run_copy_operations] @ warm @ [Env_reset] @
                Env_is_end_state # cs @ [Env_is_end_state] @ boot"
    "list_all is_act warm" "list_all is_rollout_call cs" "list_all is_value_call boot"
    "shared_counter w7 = shared_counter w" "shared_weights w7 = shared_weights w"
    "shared_optimizer w7 = shared_optimizer w"
    "accumulate_gradients X sb ab rb w7 = Inr w8" "w' = update_shared_gradients X w8"
    "local_grads w7 = local_grads (reset_gradients w)"
    "local_network w7 = local_network (sync_network_parameters (reset_gradients w))"
    by blast
  note a8 = accumulate_gradients_facts[OF r(8)]
  note u = update_shared_gradients_facts[of X w8]
  show "shared_counter w' = shared_counter w + 1"
    using r(5,9) a8 u by simp
  let ?cs = "[Run_reset_local_grads_ops, Run_copy_operations] @ warm @ [Env_reset] @
                Env_is_end_state # cs @ [Env_is_end_state] @ boot"
  let ?G = "clipped_grads (local_grads w8)"
  have n1: "\<forall>c\<in>set warm. \<not> is_apply_call c"
    using r(2) is_act_not_other by (fastforce simp: list_all_iff)
  have n2: "\<forall>c\<in>set cs. \<not> is_apply_call c"
    using r(3) is_rollout_call_not_other by (fastforce simp: list_all_iff)
  have n3: "\<forall>c\<in>set boot. \<not> is_apply_call c"
    using r(4) is_value_call_not_other by (fastforce simp: list_all_iff)
  have f1: "list_all (\<lambda>c. \<not> is_apply_call c) ?cs"
    using n1 n2 n3 by (simp add: list_all_iff ball_Un)
  have f2: "calls w' = calls w @ ?cs @ [Run_accum_local_grads_ops sb ab rb, Run_apply_grads ?G]"
    using r(1,9) a8 u by simp
  have f3: "?G = map (map (\<lambda>v. min (max v (- 40)) 40)) (local_grads w')"
    using r(9) u by (simp add: clipped_grads_def clip_by_value_def grad_clip_def)
  have f4: "shared_optimizer w' =
           fst (apply_gradients X (shared_optimizer w) (zip ?G (shared_weights w)))"
    using r(6,7,9) a8 u by simp
  have f5: "shared_weights w' =
           snd (apply_gradients X (shared_optimizer w) (zip ?G (shared_weights w))) @
           drop (length (snd (apply_gradients X (shared_optimizer w) (zip ?G (shared_weights w)))))
                (shared_weights w)"
    using r(6,7,9) a8 u by simp
  have f6: "sb \<noteq> []" using a8 by simp
  have f7: "length (local_grads w) = length (local_network w) \<and>
          map length (shared_weights w) = map length (local_network w) \<and>
          (\<forall>L ws. map length (tf_gradients X L ws) = map length ws) \<longrightarrow>
            local_grads w' = tf_gradients X (feed_loss X sb ab rb) (shared_weights w)"
    using accumulate_after_reset[of w X w7 sb ab rb w8] r(8,9,10,11) u by simp
  show "\<exists>cs states_batch action_batch reward_batch G.
         calls w' = calls w @ cs @
                    [Run_accum_local_grads_ops states_batch action_batch reward_batch,
                     Run_apply_grads G] \<and>
         list_all (\<lambda>c. \<not> is_apply_call c) cs \<and>
         states_batch \<noteq> [] \<and>
         G = map (map (\<lambda>v. min (max v (- 40)) 40)) (local_grads w') \<and>
         shared_optimizer w' =
           fst (apply_gradients X (shared_optimizer w) (zip G (shared_weights w))) \<and>
         shared_weights w' =
           snd (apply_gradients X (shared_optimizer w) (zip G (shared_weights w))) @
           drop (length (snd (apply_gradients X (shared_optimizer w) (zip G (shared_weights w)))))
                (shared_weights w) \<and>
         (length (local_grads w) = length (local_network w) \<and>
          map length (shared_weights w) = map length (local_network w) \<and>
          (\<forall>L ws. map length (tf_gradients X L ws) = map length ws) \<longrightarrow>
            local_grads w' =
              tf_gradients X (feed_loss X states_batch action_batch reward_batch)
                (shared_weights w))"
    by (rule exI[of _ ?cs], rule exI[of _ sb], rule exI[of _ ab], rule exI[of _ rb],
        rule exI[of _ ?G])
       (intro conjI, rule f2, rule f1, rule f6, rule f3, rule f4, rule f5, rule f7)
next
  assume b: "0 < num_channels X \<and> num_channels X \<le> 256 \<and>
     (\<forall>e. env_is_end_state X (env_reset X e))"
  then have b1: "0 < num_channels X" and b2: "num_channels X \<le> 256"
    and b3: "\<forall>e. env_is_end_state X (env_reset X e)"
    by simp_all
  from run_iteration_degenerate[OF b1 b2 b3, of w]
  show "\<exists>w1 warm.
         run_iteration X w = Some (Inl (ValueError, w1)) \<and>
         calls w1 = calls w @ [Run_reset_local_grads_ops, Run_copy_operations] @ warm @
                    [Env_reset, Env_is_end_state, Env_is_end_state] \<and>
         list_all is_act warm \<and> shared_counter w1 = shared_counter w \<and>
         shared_weights w1 = shared_weights w \<and> shared_optimizer w1 = shared_optimizer w"
    by blast
qed

theorem iteration_applies_once_witness:
  "0 < num_channels (counting_env 0) \<and> num_channels (counting_env 0) \<le> 256 \<and>
   (\<forall>e. env_is_end_state (counting_env 0) (env_reset (counting_env 0) e)) \<and>
   length (local_grads (fresh_thread 0)) = length (local_network (fresh_thread 0)) \<and>
   map length (shared_weights (fresh_thread 0)) = map length (local_network (fresh_thread 0)) \<and>
   (\<forall>L ws. map length (tf_gradients (counting_env 8) L ws) = map length ws) \<and>
   (\<exists>w1. run_iteration (counting_env 0) (fresh_thread 0) = Some (Inl (ValueError, w1)) \<and>
      shared_counter w1 = 0 \<and> shared_weights w1 = replicate 10 [0]) \<and>
   (\<exists>w' cs states_batch action_batch reward_batch.
      run_iteration (counting_env 8) (fresh_thread 0) = Some (Inr w') \<and>
      shared_counter w' = 1 \<and>
      calls w' = cs @ [Run_accum_local_grads_ops states_batch action_batch reward_batch,
                       Run_apply_grads (replicate 10 [0])] \<and>
      list_all (\<lambda>c. \<not> is_apply_call c) cs \<and> shared_weights w' = replicate 10 [0] \<and>
      local_grads w' = replicate 10 [0])"
proof -
  have h: "0 < num_channels (counting_env 0) \<and> num_channels (counting_env 0) \<le> 256 \<and>
      (\<forall>e. env_is_end_state (counting_env 0) (env_reset (counting_env 0) e))"
    by (simp add: counting_env_def)
  have hh: "length (local_grads (fresh_thread 0)) = length (local_network (fresh_thread 0)) \<and>
     map length (shared_weights (fresh_thread 0)) = map length (local_network (fresh_thread 0)) \<and>
     (\<forall>L ws. map length (tf_gradients (counting_env 8) L ws) = map length ws)"
    by (simp add: fresh_thread_def counting_env_def comp_def)
  from iteration_applies_once[of "counting_env 0" "fresh_thread 0" undefined, THEN conjunct2] h
  obtain w1 where d:
    "run_iteration (counting_env 0) (fresh_thread 0) = Some (Inl (ValueError, w1))"
    "shared_counter w1 = shared_counter (fresh_thread 0)"
    "shared_weights w1 = shared_weights (fresh_thread 0)"
    by blast
  from run8 obtain w' where r: "run_iteration (counting_env 8) (fresh_thread 0) = Some (Inr w')"
    by blast
  from iteration_applies_once[of "counting_env 8" "fresh_thread 0" w', THEN conjunct1] r hh
  obtain cs sb ab rb G where e: "shared_counter w' = shared_counter (fresh_thread 0) + 1"
    "calls w' = calls (fresh_thread 0) @ cs @ [Run_accum_local_grads_ops sb ab rb, Run_apply_grads G]"
    "list_all (\<lambda>c. \<not> is_apply_call c) cs"
    "G = map (map (\<lambda>v. min (max v (- 40)) 40)) (local_grads w')"
    "shared_weights w' =
           snd (apply_gradients (counting_env 8) (shared_optimizer (fresh_thread 0))
                  (zip G (shared_weights (fresh_thread 0)))) @
           drop (length (snd (apply_gradients (counting_env 8) (shared_optimizer (fresh_thread 0))
                  (zip G (shared_weights (fresh_thread 0))))))
                (shared_weights (fresh_thread 0))"
    "local_grads w' = tf_gradients (counting_env 8) (feed_loss (counting_env 8) sb ab rb)
         (shared_weights (fresh_thread 0))"
    by blast
  have lg: "local_grads w' = replicate 10 [0]"
    using e(6) by (simp add: counting_env_def fresh_thread_def)
  have g: "G = replicate 10 [0]" using e(4) lg by simp
  have f0: "calls (fresh_thread 0) = []" "shared_counter (fresh_thread 0) = 0"
    "shared_weights (fresh_thread 0) = replicate 10 [0]"
    by (simp_all add: fresh_thread_def)
  have sw: "shared_weights w' = replicate 10 [0]"
    using e(5) by (simp add: g f0 counting_env_def zip_replicate)
  have p1: "\<exists>w1. run_iteration (counting_env 0) (fresh_thread 0) = Some (Inl (ValueError, w1)) \<and>
      shared_counter w1 = 0 \<and> shared_weights w1 = replicate 10 [0]"
    using d f0 by auto
  have p2: "\<exists>w' cs states_batch action_batch reward_batch.
      run_iteration (counting_env 8) (fresh_thread 0) = Some (Inr w') \<and>
      shared_counter w' = 1 \<and>
      calls w' = cs @ [Run_accum_local_grads_ops states_batch action_batch reward_batch,
                       Run_apply_grads (replicate 10 [0])] \<and>
      list_all (\<lambda>c. \<not> is_apply_call c) cs \<and> shared_weights w' = replicate 10 [0] \<and>
      local_grads w' = replicate 10 [0]"
    by (rule exI[of _ w'], rule exI[of _ cs], rule exI[of _ sb], rule exI[of _ ab],
        rule exI[of _ rb])
       (use r e(1,2,3) g sw lg f0 in simp)
  show ?thesis using h hh p1 p2 by blast
qed

end
